theory Spec2Isabelle
  imports Complex_Main
begin

section \<open>Values, errors and arrays\<close>

text \<open>
  The layout code of \<^verbatim>\<open>src/umato/layouts.py\<close> works on float arrays. The coordinates
  and the positive counters are idealised as real numbers (no rounding, no overflow, no
  sign of zero). The kernel \<^verbatim>\<open>_nn_layout_optimize_single_epoch\<close> only ever runs compiled
  by \<^verbatim>\<open>numba.njit\<close> (lines 107 to 111); it is read as the sequential loop it is written
  as (\<^verbatim>\<open>numba.prange\<close> as \<^verbatim>\<open>range\<close>), with the checks of Python on its array accesses: an
  index outside an array raises \<^verbatim>\<open>IndexError\<close> (a negative index counts from the end). A
  scalar division by zero raises \<^verbatim>\<open>ZeroDivisionError\<close> (numba's default error model, as
  Python's floats do). \<^verbatim>\<open>int\<close> of a float is a cast to a 64-bit integer, which raises
  nothing. The count of negative samples (line 204) is where rounding decides how a run
  goes on, so its subtraction and its division round to binary64. A division of a numpy
  array does not raise: it produces infinities and NaN, the values of type \<open>fl\<close> below. A
  result keeps the state at the moment of the error, since the arrays are changed in
  place.
\<close>

datatype error = NameError | IndexError | ZeroDivisionError

datatype fl = Fin real | PInf | NInf | NaN

datatype 's res = Raised error 's | Returns 's

type_synonym matrix = "real list list"

type_synonym store = "nat \<Rightarrow> matrix"

text \<open>A row view \<^verbatim>\<open>arr[j]\<close> of a numpy matrix: the address of the array and the row.\<close>

type_synonym view = "nat \<times> nat"

definition py_index :: "nat \<Rightarrow> int \<Rightarrow> nat option" where
  "py_index len i =
     (if 0 \<le> i \<and> i < int len then Some (nat i)
      else if - int len \<le> i \<and> i < 0 then Some (nat (int len + i))
      else None)"

definition np_get :: "'a list \<Rightarrow> int \<Rightarrow> error + 'a" where
  "np_get xs i = (case py_index (length xs) i of None \<Rightarrow> Inl IndexError | Some m \<Rightarrow> Inr (xs ! m))"

definition nth_err :: "'a list \<Rightarrow> nat \<Rightarrow> error + 'a" where
  "nth_err xs i = (if i < length xs then Inr (xs ! i) else Inl IndexError)"

definition mk_view :: "store \<Rightarrow> nat \<Rightarrow> int \<Rightarrow> error + view" where
  "mk_view s arr j = (case py_index (length (s arr)) j of None \<Rightarrow> Inl IndexError | Some m \<Rightarrow> Inr (arr, m))"

definition view_row :: "store \<Rightarrow> view \<Rightarrow> real list" where
  "view_row s v = s (fst v) ! snd v"

definition view_get :: "store \<Rightarrow> view \<Rightarrow> nat \<Rightarrow> error + real" where
  "view_get s v d = nth_err (view_row s v) d"

definition view_add :: "store \<Rightarrow> view \<Rightarrow> nat \<Rightarrow> real \<Rightarrow> store" where
  "view_add s v d x = s(fst v := (s (fst v))[snd v := (view_row s v)[d := view_row s v ! d + x]])"

text \<open>
  Modelled from the spec: \<^verbatim>\<open>clip\<close> of \<^verbatim>\<open>umato.utils\<close> is not among the sources. The spec
  writes the displacement as \<^verbatim>\<open>clip(coeff * (current_d - other_d), +-10)\<close>, a value clipped
  to the range from minus the cutoff to the cutoff.
\<close>

definition clip :: "real \<Rightarrow> real \<Rightarrow> real" where
  "clip val cutoff = (if val > cutoff then cutoff else if val < - cutoff then - cutoff else val)"

text \<open>
  Modelled from the spec: \<^verbatim>\<open>rdist\<close> of \<^verbatim>\<open>umato.utils\<close> is not among the sources. The spec
  calls its result the squared Euclidean distance between the two positions.
\<close>

definition rdist :: "real list \<Rightarrow> real list \<Rightarrow> real" where
  "rdist x y = (\<Sum>(u, v)\<leftarrow>zip x y. (u - v) * (u - v))"

text \<open>Python's \<^verbatim>\<open>pow\<close> on floats; the kernel calls it with a positive base only.\<close>

definition pow :: "real \<Rightarrow> real \<Rightarrow> real" where
  "pow x y = x powr y"

section \<open>The attractive step of one edge\<close>

text \<open>Lines 184 to 194: the clipped displacement and the two scale factors.\<close>

definition attr_grad_d :: "real \<Rightarrow> real \<Rightarrow> real \<Rightarrow> real" where
  "attr_grad_d grad_coeff c o' = clip (grad_coeff * (c - o')) 10"

definition grad_current :: "int \<Rightarrow> real" where
  "grad_current h = (if h = 1 then 0.01 else if h = 2 then 0.01 else 0)"

definition grad_other :: "int \<Rightarrow> real" where
  "grad_other h = (if h = 1 then 0.01 else if h = 2 then 0.001 else 0)"

text \<open>One pass of the loop over \<^verbatim>\<open>d\<close>, lines 184 to 199.\<close>

definition attract_dim ::
  "int list \<Rightarrow> int \<Rightarrow> bool \<Rightarrow> real \<Rightarrow> real \<Rightarrow> view \<Rightarrow> view \<Rightarrow> nat \<Rightarrow> store \<Rightarrow> store res" where
  "attract_dim hub_info k move_other alpha grad_coeff current other d s =
     (case view_get s current d of Inl e \<Rightarrow> Raised e s | Inr c \<Rightarrow>
      case view_get s other d of Inl e \<Rightarrow> Raised e s | Inr o' \<Rightarrow>
      case np_get hub_info k of Inl e \<Rightarrow> Raised e s | Inr h \<Rightarrow>
        let grad_d = attr_grad_d grad_coeff c o';
            s1 = view_add s current d (grad_d * alpha * grad_current h)
        in if move_other
           then (case view_get s1 other d of Inl e \<Rightarrow> Raised e s1
                 | Inr _ \<Rightarrow> Returns (view_add s1 other d (- grad_d * alpha * grad_other h)))
           else Returns s1)"

text \<open>A \<^verbatim>\<open>for\<close> loop whose body may raise: it stops at the first error.\<close>

fun for_each :: "('i \<Rightarrow> 's \<Rightarrow> 's res) \<Rightarrow> 'i list \<Rightarrow> 's \<Rightarrow> 's res" where
  "for_each body [] s = Returns s"
| "for_each body (x # xs) s =
     (case body x s of Raised e s' \<Rightarrow> Raised e s' | Returns s' \<Rightarrow> for_each body xs s')"

definition attract_loop ::
  "int list \<Rightarrow> int \<Rightarrow> bool \<Rightarrow> real \<Rightarrow> real \<Rightarrow> view \<Rightarrow> view \<Rightarrow> nat \<Rightarrow> store \<Rightarrow> store res" where
  "attract_loop hub_info k move_other alpha grad_coeff current other dim' s =
     for_each (attract_dim hub_info k move_other alpha grad_coeff current other) [0..<dim'] s"

section \<open>The repulsive step of one edge\<close>

text \<open>
  \<^verbatim>\<open>tau_rand_int\<close> of \<^verbatim>\<open>umato.utils\<close> is not among the sources: it is the parameter
  \<open>tau\<close>, a function from the random state to the drawn integer and the next state.
  The rejection loop of lines 208 to 211 may run forever; then its value is \<open>None\<close>.
\<close>

partial_function (option) draw_hub ::
  "('r \<Rightarrow> int \<times> 'r) \<Rightarrow> int list \<Rightarrow> int \<Rightarrow> 'r \<Rightarrow> ((error + int) \<times> 'r) option" where
  "draw_hub tau hub_info n_vertices r =
     (if n_vertices = 0 then Some (Inl ZeroDivisionError, snd (tau r))
      else case np_get hub_info (fst (tau r) mod n_vertices) of
             Inl e \<Rightarrow> Some (Inl e, snd (tau r))
           | Inr h \<Rightarrow> if h > 0 then Some (Inr (fst (tau r) mod n_vertices), snd (tau r))
                      else draw_hub tau hub_info n_vertices (snd (tau r)))"

declare draw_hub.simps [code]

text \<open>
  Lines 227 to 230: the displacement of a negative sample. The positions are read only
  when the coefficient is positive.
\<close>

definition neg_grad_d :: "real \<Rightarrow> view \<Rightarrow> view \<Rightarrow> nat \<Rightarrow> store \<Rightarrow> error + real" where
  "neg_grad_d grad_coeff current other d s =
     (if grad_coeff > 0
      then (case view_get s current d of Inl e \<Rightarrow> Inl e | Inr c \<Rightarrow>
            case view_get s other d of Inl e \<Rightarrow> Inl e | Inr o' \<Rightarrow>
              Inr (clip (grad_coeff * (c - o')) 10))
      else Inr 10)"

text \<open>Line 188; the name is bound in the attractive loop and read in line 232.\<close>

definition grad_neg :: real where
  "grad_neg = 0.001"

text \<open>One pass of the loop over \<^verbatim>\<open>d\<close>, lines 227 to 232.\<close>

definition neg_dim :: "real \<Rightarrow> real \<Rightarrow> view \<Rightarrow> view \<Rightarrow> nat \<Rightarrow> store \<Rightarrow> store res" where
  "neg_dim alpha grad_coeff current other d s =
     (case neg_grad_d grad_coeff current other d s of Inl e \<Rightarrow> Raised e s | Inr grad_d \<Rightarrow>
      case view_get s current d of Inl e \<Rightarrow> Raised e s
      | Inr _ \<Rightarrow> Returns (view_add s current d (grad_d * alpha * grad_neg)))"

definition neg_loop :: "real \<Rightarrow> real \<Rightarrow> view \<Rightarrow> view \<Rightarrow> nat \<Rightarrow> store \<Rightarrow> store res" where
  "neg_loop alpha grad_coeff current other dim' s =
     for_each (neg_dim alpha grad_coeff current other) [0..<dim'] s"

text \<open>
  Lines 213 to 232, after the vertex \<open>k\<close> has been drawn: the coefficient, the
  \<^verbatim>\<open>continue\<close> of line 222 and the loop over the dimensions.
\<close>

definition neg_update ::
  "nat \<Rightarrow> real \<Rightarrow> real \<Rightarrow> real \<Rightarrow> real \<Rightarrow> nat \<Rightarrow> view \<Rightarrow> int \<Rightarrow> int \<Rightarrow> store \<Rightarrow> store res" where
  "neg_update tail_embedding a b gamma alpha dim' current j k s =
     (case mk_view s tail_embedding k of Inl e \<Rightarrow> Raised e s | Inr other \<Rightarrow>
        let dist_squared = rdist (view_row s current) (view_row s other) in
        if dist_squared > 0 then
          (if (0.001 + dist_squared) * (a * pow dist_squared b + 1) = 0
           then Raised ZeroDivisionError s
           else neg_loop alpha
                  (2 * gamma * b / ((0.001 + dist_squared) * (a * pow dist_squared b + 1)))
                  current other dim' s)
        else if j = k then Returns s
        else neg_loop alpha 0 current other dim' s)"

section \<open>The counters\<close>

text \<open>
  \<^verbatim>\<open>epochs_per_sample / negative_sample_rate\<close> (line 103) divides a numpy array: a zero
  divisor gives an infinity or NaN. The sign of a zero is not modelled, and a finite
  quotient is taken exactly, as are the sum and the product of line 234.
\<close>

definition np_divide :: "real \<Rightarrow> real \<Rightarrow> fl" where
  "np_divide x y =
     (if y \<noteq> 0 then Fin (x / y) else if x > 0 then PInf else if x < 0 then NInf else NaN)"

fun fl_neg :: "fl \<Rightarrow> fl" where
  "fl_neg (Fin x) = Fin (- x)"
| "fl_neg PInf = NInf"
| "fl_neg NInf = PInf"
| "fl_neg NaN = NaN"

fun fl_add :: "fl \<Rightarrow> fl \<Rightarrow> fl" where
  "fl_add (Fin x) (Fin y) = Fin (x + y)"
| "fl_add NaN _ = NaN"
| "fl_add _ NaN = NaN"
| "fl_add PInf NInf = NaN"
| "fl_add NInf PInf = NaN"
| "fl_add PInf _ = PInf"
| "fl_add _ PInf = PInf"
| "fl_add NInf _ = NInf"
| "fl_add _ NInf = NInf"

fun fl_sgn :: "fl \<Rightarrow> real" where
  "fl_sgn (Fin x) = sgn x"
| "fl_sgn PInf = 1"
| "fl_sgn NInf = - 1"
| "fl_sgn NaN = 0"

fun fl_mul :: "fl \<Rightarrow> fl \<Rightarrow> fl" where
  "fl_mul (Fin x) (Fin y) = Fin (x * y)"
| "fl_mul NaN _ = NaN"
| "fl_mul _ NaN = NaN"
| "fl_mul x y =
     (if fl_sgn x * fl_sgn y > 0 then PInf else if fl_sgn x * fl_sgn y < 0 then NInf else NaN)"

text \<open>
  Rounding to binary64, to the nearest value and on a tie to the even one: a real \<open>x\<close>
  other than 0 lies in the binade of exponent \<open>\<lfloor>log 2 \<bar>x\<bar>\<rfloor>\<close>, where the floats are the
  multiples of 2 to that exponent minus 52. The range of the exponent is not bounded:
  no overflow to an infinity, no subnormal numbers.
\<close>

definition round_even :: "real \<Rightarrow> int" where
  "round_even x =
     (if x - of_int \<lfloor>x\<rfloor> < 1 / 2 then \<lfloor>x\<rfloor>
      else if x - of_int \<lfloor>x\<rfloor> > 1 / 2 then \<lfloor>x\<rfloor> + 1
      else if even \<lfloor>x\<rfloor> then \<lfloor>x\<rfloor> else \<lfloor>x\<rfloor> + 1)"

definition round_double :: "real \<Rightarrow> real" where
  "round_double x =
     (if x = 0 then 0
      else of_int (round_even (x / 2 powi (\<lfloor>log 2 \<bar>x\<bar>\<rfloor> - 52))) * 2 powi (\<lfloor>log 2 \<bar>x\<bar>\<rfloor> - 52))"

fun fl_round :: "fl \<Rightarrow> fl" where
  "fl_round (Fin x) = Fin (round_double x)"
| "fl_round x = x"

text \<open>The subtraction and the scalar division of line 204: both round, and a zero
  divisor raises.\<close>

definition fl_sub :: "fl \<Rightarrow> fl \<Rightarrow> fl" where
  "fl_sub x y = fl_round (fl_add x (fl_neg y))"

fun fl_div :: "fl \<Rightarrow> fl \<Rightarrow> error + fl" where
  "fl_div (Fin x) (Fin y) =
     (if y = 0 then Inl ZeroDivisionError else Inr (Fin (round_double (x / y))))"
| "fl_div NaN (Fin y) = (if y = 0 then Inl ZeroDivisionError else Inr NaN)"
| "fl_div x (Fin y) =
     (if y = 0 then Inl ZeroDivisionError else Inr (if fl_sgn x * y > 0 then PInf else NInf))"
| "fl_div _ NaN = Inr NaN"
| "fl_div (Fin x) _ = Inr (Fin 0)"
| "fl_div _ _ = Inr NaN"

text \<open>
  \<^verbatim>\<open>int\<close> of a float, as numba compiles it: a cast to a 64-bit integer that truncates
  towards zero and raises nothing. On a NaN, on an infinity and outside the range of the
  64-bit integers the cast has no defined value; the model takes the one that x86-64
  gives, \<open>- 2 ^ 63\<close>.
\<close>

fun int64_of_float :: "fl \<Rightarrow> int" where
  "int64_of_float (Fin x) =
     (if - (2 ^ 63) \<le> x \<and> x < 2 ^ 63 then (if x \<ge> 0 then \<lfloor>x\<rfloor> else \<lceil>x\<rceil>) else - (2 ^ 63))"
| "int64_of_float _ = - (2 ^ 63)"

text \<open>Lines 203 to 205.\<close>

definition n_neg_samples :: "nat \<Rightarrow> fl \<Rightarrow> fl \<Rightarrow> error + int" where
  "n_neg_samples n next_neg per_neg =
     (case fl_div (fl_sub (Fin (real n)) next_neg) per_neg of
        Inl e \<Rightarrow> Inl e
      | Inr q \<Rightarrow> Inr (int64_of_float q))"

section \<open>One epoch\<close>

text \<open>Lines 177 to 181.\<close>

definition attract_coeff :: "real \<Rightarrow> real \<Rightarrow> real \<Rightarrow> error + real" where
  "attract_coeff a b dist_squared =
     (if dist_squared > 0 then
        (if a * pow dist_squared b + 1 = 0 then Inl ZeroDivisionError
         else Inr (- 2 * a * b * pow dist_squared (b - 1) / (a * pow dist_squared b + 1)))
      else Inr 0)"

text \<open>
  The arrays that the kernel mutates: the coordinate matrices (by address, so that
  \<^verbatim>\<open>head_embedding\<close> and \<^verbatim>\<open>tail_embedding\<close> may be one array), the random state and
  the two counters of every edge.
\<close>

record 'r kstate =
  arrays :: store
  rng_state :: 'r
  epoch_of_next_sample :: "real list"
  epoch_of_next_negative_sample :: "fl list"

text \<open>The arguments of the kernel that it only reads, under their names in the source
  (\<open>curve_a\<close> and \<open>curve_b\<close> are its \<^verbatim>\<open>a\<close> and \<^verbatim>\<open>b\<close>).\<close>

record kargs =
  head_embedding :: nat
  tail_embedding :: nat
  head :: "int list"
  tail :: "int list"
  hub_info :: "int list"
  n_vertices :: int
  epochs_per_sample :: "real list"
  curve_a :: real
  curve_b :: real
  gamma :: real
  dim' :: nat
  move_other :: bool
  epochs_per_negative_sample :: "fl list"

definition on_arrays :: "'r kstate \<Rightarrow> store res \<Rightarrow> 'r kstate res" where
  "on_arrays st r =
     (case r of Raised e s \<Rightarrow> Raised e (st\<lparr>arrays := s\<rparr>) | Returns s \<Rightarrow> Returns (st\<lparr>arrays := s\<rparr>))"

text \<open>Lines 169 to 199: the attractive step of edge \<open>i\<close>.\<close>

definition edge_attract :: "kargs \<Rightarrow> real \<Rightarrow> nat \<Rightarrow> store \<Rightarrow> store res" where
  "edge_attract K alpha i s =
     (case nth_err (head K) i of Inl e \<Rightarrow> Raised e s | Inr j \<Rightarrow>
      case nth_err (tail K) i of Inl e \<Rightarrow> Raised e s | Inr k \<Rightarrow>
      case mk_view s (head_embedding K) j of Inl e \<Rightarrow> Raised e s | Inr current \<Rightarrow>
      case mk_view s (tail_embedding K) k of Inl e \<Rightarrow> Raised e s | Inr other \<Rightarrow>
      case attract_coeff (curve_a K) (curve_b K) (rdist (view_row s current) (view_row s other)) of
        Inl e \<Rightarrow> Raised e s
      | Inr grad_coeff \<Rightarrow>
          attract_loop (hub_info K) k (move_other K) alpha grad_coeff current other (dim' K) s)"

text \<open>A loop whose body may also run forever.\<close>

fun for_each_opt :: "('i \<Rightarrow> 's \<Rightarrow> 's res option) \<Rightarrow> 'i list \<Rightarrow> 's \<Rightarrow> 's res option" where
  "for_each_opt body [] s = Some (Returns s)"
| "for_each_opt body (x # xs) s =
     (case body x s of None \<Rightarrow> None
      | Some (Raised e s') \<Rightarrow> Some (Raised e s')
      | Some (Returns s') \<Rightarrow> for_each_opt body xs s')"

text \<open>Lines 208 to 232: one negative sample of the edge whose head vertex is \<open>j\<close>.\<close>

definition neg_sample ::
  "('r \<Rightarrow> int \<times> 'r) \<Rightarrow> kargs \<Rightarrow> real \<Rightarrow> view \<Rightarrow> int \<Rightarrow> 'r kstate \<Rightarrow> 'r kstate res option" where
  "neg_sample tau K alpha current j st =
     (case draw_hub tau (hub_info K) (n_vertices K) (rng_state st) of
        None \<Rightarrow> None
      | Some (Inl e, r) \<Rightarrow> Some (Raised e (st\<lparr>rng_state := r\<rparr>))
      | Some (Inr k, r) \<Rightarrow>
          Some (on_arrays (st\<lparr>rng_state := r\<rparr>)
                  (neg_update (tail_embedding K) (curve_a K) (curve_b K) (gamma K) alpha (dim' K) current j k
                     (arrays st))))"

text \<open>
  Lines 203 to 236: the repulsive step of edge \<open>i\<close>. The range of a negative count is
  empty. \<open>current\<close> is the view of line 172 and \<open>j\<close> the vertex of line 169; they are
  looked up again here, which cannot fail after the attractive step.
\<close>

definition edge_repulse ::
  "('r \<Rightarrow> int \<times> 'r) \<Rightarrow> kargs \<Rightarrow> real \<Rightarrow> nat \<Rightarrow> nat \<Rightarrow> 'r kstate \<Rightarrow> 'r kstate res option" where
  "edge_repulse tau K alpha n i st =
     (case nth_err (epoch_of_next_negative_sample st) i of Inl e \<Rightarrow> Some (Raised e st)
      | Inr next_neg \<Rightarrow>
      case nth_err (epochs_per_negative_sample K) i of Inl e \<Rightarrow> Some (Raised e st)
      | Inr per_neg \<Rightarrow>
      case n_neg_samples n next_neg per_neg of Inl e \<Rightarrow> Some (Raised e st)
      | Inr n_neg \<Rightarrow>
      case nth_err (head K) i of Inl e \<Rightarrow> Some (Raised e st) | Inr j \<Rightarrow>
      case mk_view (arrays st) (head_embedding K) j of Inl e \<Rightarrow> Some (Raised e st)
      | Inr current \<Rightarrow>
      case for_each_opt (\<lambda>p. neg_sample tau K alpha current j) [0..<nat n_neg] st of
        None \<Rightarrow> None
      | Some (Raised e st') \<Rightarrow> Some (Raised e st')
      | Some (Returns st') \<Rightarrow>
          (case nth_err (epoch_of_next_negative_sample st') i of
             Inl e \<Rightarrow> Some (Raised e st')
           | Inr cur \<Rightarrow>
               Some (Returns (st'\<lparr>epoch_of_next_negative_sample :=
                  (epoch_of_next_negative_sample st')
                    [i := fl_add cur (fl_mul (Fin (of_int n_neg)) per_neg)]\<rparr>))))"

text \<open>Lines 168 to 236: the body of the loop over the edges.\<close>

definition edge_step ::
  "('r \<Rightarrow> int \<times> 'r) \<Rightarrow> kargs \<Rightarrow> real \<Rightarrow> nat \<Rightarrow> nat \<Rightarrow> 'r kstate \<Rightarrow> 'r kstate res option" where
  "edge_step tau K alpha n i st =
     (case nth_err (epoch_of_next_sample st) i of Inl e \<Rightarrow> Some (Raised e st) | Inr next \<Rightarrow>
      if next \<le> real n then
        (case on_arrays st (edge_attract K alpha i (arrays st)) of
           Raised e st1 \<Rightarrow> Some (Raised e st1)
         | Returns st1 \<Rightarrow>
             (case nth_err (epochs_per_sample K) i of Inl e \<Rightarrow> Some (Raised e st1)
              | Inr per \<Rightarrow>
                  edge_repulse tau K alpha n i
                    (st1\<lparr>epoch_of_next_sample := (epoch_of_next_sample st1)[i := next + per]\<rparr>)))
      else Some (Returns st))"

definition single_epoch ::
  "('r \<Rightarrow> int \<times> 'r) \<Rightarrow> kargs \<Rightarrow> real \<Rightarrow> nat \<Rightarrow> 'r kstate \<Rightarrow> 'r kstate res option" where
  "single_epoch tau K alpha n st =
     for_each_opt (edge_step tau K alpha n) [0..<length (epochs_per_sample K)] st"

section \<open>The Local Layout Optimizer\<close>

text \<open>
  Lines 110 to 141. The loop carries the learning rate and whether the name
  \<^verbatim>\<open>plot_tmptmp\<close> is bound: the import of line 135 binds it, in the epochs that
  \<^verbatim>\<open>verbose and n % 10 == 0\<close> selects. Plotting and printing change none of the arrays.
\<close>

fun epochs_loop ::
  "('r \<Rightarrow> int \<times> 'r) \<Rightarrow> kargs \<Rightarrow> real \<Rightarrow> int \<Rightarrow> bool \<Rightarrow> nat list \<Rightarrow> real \<Rightarrow> bool \<Rightarrow> 'r kstate
     \<Rightarrow> (bool \<times> 'r kstate res) option" where
  "epochs_loop tau K initial_alpha n_epochs verbose [] alpha bound st = Some (bound, Returns st)"
| "epochs_loop tau K initial_alpha n_epochs verbose (n # ns) alpha bound st =
     (case single_epoch tau K alpha n st of
        None \<Rightarrow> None
      | Some (Raised e st') \<Rightarrow> Some (bound, Raised e st')
      | Some (Returns st') \<Rightarrow>
          epochs_loop tau K initial_alpha n_epochs verbose ns
            (initial_alpha * (1 - real n / real_of_int n_epochs))
            (bound \<or> (verbose \<and> n mod 10 = 0)) st')"

text \<open>The second component of the shape of a matrix; a matrix without rows has no row to
  index, so its width is never used.\<close>

definition shape1 :: "matrix \<Rightarrow> nat" where
  "shape1 m = (case m of [] \<Rightarrow> 0 | r # _ \<Rightarrow> length r)"

text \<open>Lines 99 to 105: the arguments of the kernel and the state it starts from.\<close>

definition kernel_args :: "kargs \<Rightarrow> real \<Rightarrow> store \<Rightarrow> kargs" where
  "kernel_args A negative_sample_rate s =
     A\<lparr>dim' := shape1 (s (head_embedding A)),
       move_other := (length (s (head_embedding A)) = length (s (tail_embedding A))),
       epochs_per_negative_sample :=
         map (\<lambda>e. np_divide e negative_sample_rate) (epochs_per_sample A)\<rparr>"

definition initial_state :: "kargs \<Rightarrow> store \<Rightarrow> 'r \<Rightarrow> 'r kstate" where
  "initial_state K s r =
     \<lparr>arrays = s, rng_state = r,
      epoch_of_next_sample = epochs_per_sample K,
      epoch_of_next_negative_sample = epochs_per_negative_sample K\<rparr>"

text \<open>
  \<^verbatim>\<open>nn_layout_optimize\<close>, lines 79 to 144. Its array and scalar arguments that reach the
  kernel are the fields of \<open>A\<close> (the three fields that lines 99 to 103 compute are set
  by \<open>kernel_args\<close>, whatever \<open>A\<close> holds there). \<open>Returns st\<close> is the return of
  \<^verbatim>\<open>head_embedding\<close> with the arrays as in \<open>st\<close>; the call of line 143 raises when the
  name is not bound.
\<close>

definition nn_layout_optimize ::
  "('r \<Rightarrow> int \<times> 'r) \<Rightarrow> kargs \<Rightarrow> int \<Rightarrow> real \<Rightarrow> real \<Rightarrow> bool \<Rightarrow> store \<Rightarrow> 'r \<Rightarrow> 'r kstate res option" where
  "nn_layout_optimize tau A n_epochs initial_alpha negative_sample_rate verbose s r =
     (case epochs_loop tau (kernel_args A negative_sample_rate s) initial_alpha n_epochs verbose
             [0..<nat n_epochs] initial_alpha False
             (initial_state (kernel_args A negative_sample_rate s) s r) of
        None \<Rightarrow> None
      | Some (bound, Raised e st) \<Rightarrow> Some (Raised e st)
      | Some (bound, Returns st) \<Rightarrow> Some (if bound then Returns st else Raised NameError st))"

section \<open>The Global Layout Refiner\<close>

text \<open>
  \<^verbatim>\<open>optimize_global_layout\<close>, lines 30 to 76, works on whole arrays with numpy, which
  raises nothing on a division by zero. The model follows an iteration as long as every
  value is a real number: its result is \<open>None\<close> when an intermediate value is an
  infinity or a NaN, and when \<open>P\<close> is not a square matrix of the size of \<open>Z\<close> or
  \<open>Z\<close> is no matrix (numpy then broadcasts or raises). \<open>P\<close> is an array other than
  \<open>Z\<close>. The cost that \<^verbatim>\<open>verbose\<close> prints and the plots of \<^verbatim>\<open>savefig\<close> change no array
  and are left out.
\<close>

text \<open>
  Modelled from the spec: \<^verbatim>\<open>adjacency_matrix\<close> of \<^verbatim>\<open>umato.utils\<close> is not among the
  sources. The spec has line 46 compute the pairwise squared distances over all current
  positions, so the function gives the pairwise Euclidean distances.
\<close>

definition adjacency_matrix :: "matrix \<Rightarrow> matrix" where
  "adjacency_matrix Z = map (\<lambda>zi. map (\<lambda>zj. sqrt (rdist zi zj)) Z) Z"

text \<open>
  numpy's power of floats (\<^verbatim>\<open>**\<close> and \<^verbatim>\<open>pow\<close>), its division, the lifting of an
  elementwise operation to a matrix, \<^verbatim>\<open>np.fill_diagonal\<close>, \<^verbatim>\<open>np.dot\<close> of two matrices and
  \<^verbatim>\<open>np.sum\<close> over axis 1 of a tensor with rows of \<open>d\<close> components.
\<close>

definition np_power :: "real \<Rightarrow> real \<Rightarrow> real option" where
  "np_power x y =
     (if x > 0 then Some (x powr y)
      else if x = 0 then (if y > 0 then Some 0 else if y = 0 then Some 1 else None)
      else if y = of_int \<lfloor>y\<rfloor> then Some (x powi \<lfloor>y\<rfloor>) else None)"

definition np_true_divide :: "real \<Rightarrow> real \<Rightarrow> real option" where
  "np_true_divide x y = (if y = 0 then None else Some (x / y))"

definition mat_opt :: "('a \<Rightarrow> 'b option) \<Rightarrow> 'a list list \<Rightarrow> 'b list list option" where
  "mat_opt f M = those (map (\<lambda>row. those (map f row)) M)"

definition is_matrix :: "nat \<Rightarrow> nat \<Rightarrow> matrix \<Rightarrow> bool" where
  "is_matrix n m M \<longleftrightarrow> length M = n \<and> (\<forall>row\<in>set M. length row = m)"

definition fill_diagonal :: "matrix \<Rightarrow> real \<Rightarrow> matrix" where
  "fill_diagonal M v = map (\<lambda>(i, row). row[i := v]) (enumerate 0 M)"

definition np_dot :: "matrix \<Rightarrow> matrix \<Rightarrow> matrix" where
  "np_dot A B =
     map (\<lambda>row. map (\<lambda>j. \<Sum>k\<leftarrow>[0..<length B]. row ! k * B ! k ! j) [0..<shape1 B]) A"

definition sum_axis1 :: "nat \<Rightarrow> real list list \<Rightarrow> real list" where
  "sum_axis1 d vs = map (\<lambda>c. \<Sum>v\<leftarrow>vs. v ! c) [0..<d]"

text \<open>Lines 46 to 61: one iteration.\<close>

definition global_step :: "matrix \<Rightarrow> matrix \<Rightarrow> real \<Rightarrow> real \<Rightarrow> real \<Rightarrow> matrix option" where
  "global_step P Z a b alpha =
     (if \<not> (is_matrix (length Z) (shape1 Z) Z \<and> is_matrix (length Z) (length Z) P) then None
      else
        let d_squared = map (map (\<lambda>x. x * x)) (adjacency_matrix Z);
            z_diff = map (\<lambda>zi. map (\<lambda>zj. map2 (-) zi zj) Z) Z
        in case mat_opt (\<lambda>x. case np_power x b of None \<Rightarrow> None
                              | Some w \<Rightarrow> np_power (1 + a * w) (- 1)) d_squared of
             None \<Rightarrow> None
           | Some d_inverse \<Rightarrow>
        case mat_opt (\<lambda>x. np_power (0.001 + x) (- 1)) d_squared of None \<Rightarrow> None
           | Some Q0 \<Rightarrow>
        case mat_opt id
               (map (\<lambda>row. map (\<lambda>q. np_true_divide q (sum_list row)) row)
                  (np_dot (map (map (\<lambda>p. 1 - p)) P) (fill_diagonal Q0 0))) of
             None \<Rightarrow> None
           | Some Q \<Rightarrow>
        case mat_opt (\<lambda>x. np_power (1 / 10 ^ 12 + x) (b - 1)) d_squared of None \<Rightarrow> None
           | Some W \<Rightarrow>
        let grad = map2 (map2 (-)) (map2 (map2 (\<lambda>p w. 2 * a * b * p * w)) P W)
                     (map (map (\<lambda>q. 2 * b * q)) Q);
            dZ = map (\<lambda>(gi, zi, di).
                        sum_axis1 (shape1 Z)
                          (map (\<lambda>(g, z, d). map (\<lambda>c. g * c * d) z) (zip gi (zip zi di))))
                   (zip grad (zip z_diff d_inverse))
        in Some (map2 (map2 (\<lambda>z dz. z - alpha * dz)) Z dZ))"

fun global_loop :: "matrix \<Rightarrow> real \<Rightarrow> real \<Rightarrow> real \<Rightarrow> nat \<Rightarrow> matrix \<Rightarrow> matrix option" where
  "global_loop P a b alpha 0 Z = Some Z"
| "global_loop P a b alpha (Suc n) Z =
     (case global_step P Z a b alpha of None \<Rightarrow> None | Some Z' \<Rightarrow> global_loop P a b alpha n Z')"

definition optimize_global_layout ::
  "matrix \<Rightarrow> matrix \<Rightarrow> real \<Rightarrow> real \<Rightarrow> real \<Rightarrow> int \<Rightarrow> matrix option" where
  "optimize_global_layout P Z a b alpha max_iter = global_loop P a b alpha (nat max_iter) Z"

text \<open>
  The update of one iteration in the words of the spec: the squared distances \<open>D\<^sup>2\<close>;
  \<open>Q\<close>, the elementwise reciprocal of \<open>0.001 + D\<^sup>2\<close> with its diagonal zeroed,
  left-multiplied by \<open>1 - P\<close> and row-normalized; the gradient of a pair; the kernel
  value; and \<open>Z\<close> decremented by \<open>alpha\<close> times the sum over the neighbours.
\<close>

definition spec_D2 :: "matrix \<Rightarrow> nat \<Rightarrow> nat \<Rightarrow> real" where
  "spec_D2 Z i j = rdist (Z ! i) (Z ! j)"

definition spec_Q0 :: "matrix \<Rightarrow> nat \<Rightarrow> nat \<Rightarrow> real" where
  "spec_Q0 Z i j = (if i = j then 0 else 1 / (0.001 + spec_D2 Z i j))"

definition spec_Q1 :: "matrix \<Rightarrow> matrix \<Rightarrow> nat \<Rightarrow> nat \<Rightarrow> real" where
  "spec_Q1 P Z i j = (\<Sum>k\<leftarrow>[0..<length Z]. (1 - P ! i ! k) * spec_Q0 Z k j)"

definition spec_Q :: "matrix \<Rightarrow> matrix \<Rightarrow> nat \<Rightarrow> nat \<Rightarrow> real" where
  "spec_Q P Z i j = spec_Q1 P Z i j / (\<Sum>j'\<leftarrow>[0..<length Z]. spec_Q1 P Z i j')"

definition spec_grad :: "matrix \<Rightarrow> matrix \<Rightarrow> real \<Rightarrow> real \<Rightarrow> nat \<Rightarrow> nat \<Rightarrow> real" where
  "spec_grad P Z a b i j =
     2 * a * b * P ! i ! j * (1 / 10 ^ 12 + spec_D2 Z i j) powr (b - 1) - 2 * b * spec_Q P Z i j"

definition spec_kernel :: "matrix \<Rightarrow> real \<Rightarrow> real \<Rightarrow> nat \<Rightarrow> nat \<Rightarrow> real" where
  "spec_kernel Z a b i j = 1 / (1 + a * spec_D2 Z i j powr b)"

definition spec_global_step :: "matrix \<Rightarrow> matrix \<Rightarrow> real \<Rightarrow> real \<Rightarrow> real \<Rightarrow> matrix" where
  "spec_global_step P Z a b alpha =
     map (\<lambda>i. map (\<lambda>c. Z ! i ! c - alpha *
                  (\<Sum>j\<leftarrow>[0..<length Z].
                     spec_grad P Z a b i j * (Z ! i ! c - Z ! j ! c) * spec_kernel Z a b i j))
              [0..<shape1 Z]) [0..<length Z]"

section \<open>Comparing the counters of two states\<close>



text \<open>Whether a counter holds a number, not an infinity or NaN.\<close>

fun is_fin :: "fl \<Rightarrow> bool" where
  "is_fin (Fin x) = True"
| "is_fin _ = False"

section \<open>Example inputs\<close>

text \<open>Two points at 0 and 1 on a line, in one array at address 0.\<close>

definition ex_store :: store where
  "ex_store = (\<lambda>_. [])(0 := [[0], [1]])"

text \<open>A head array at address 0 and a tail array at address 1, of one point each.\<close>

definition ex_split :: store where
  "ex_split = (\<lambda>_. [])(0 := [[0]], 1 := [[1]])"

text \<open>A head array at address 0 and a tail array at address 1 that hold the same point.\<close>

definition ex_twin :: store where
  "ex_twin = (\<lambda>_. [])(0 := [[1]], 1 := [[1]])"

text \<open>
  A run on the two points of \<open>ex_store\<close>: one edge from vertex 0 to vertex 1, both
  vertices hubs of label 1, \<^verbatim>\<open>epochs_per_sample = [1]\<close>, \<^verbatim>\<open>a = b = gamma = 1\<close>. The
  generator \<open>ex_tau\<close> counts up. \<open>ex_kargs\<close> is what lines 99 to 103 make of
  \<open>ex_args\<close> at \<^verbatim>\<open>negative_sample_rate = 1\<close>.
\<close>

definition ex_tau :: "nat \<Rightarrow> int \<times> nat" where
  "ex_tau r = (int r, r + 1)"

definition ex_args :: kargs where
  "ex_args = \<lparr>head_embedding = 0, tail_embedding = 0, head = [0], tail = [1], hub_info = [1, 1],
     n_vertices = 2, epochs_per_sample = [1], curve_a = 1, curve_b = 1, gamma = 1, dim' = 0,
     move_other = False, epochs_per_negative_sample = []\<rparr>"

definition ex_kargs :: kargs where
  "ex_kargs = ex_args\<lparr>dim' := 1, move_other := True, epochs_per_negative_sample := [Fin 1]\<rparr>"

definition ex_state :: "store \<Rightarrow> real \<Rightarrow> nat kstate" where
  "ex_state s next = \<lparr>arrays = s, rng_state = 0, epoch_of_next_sample = [next],
     epoch_of_next_negative_sample = [Fin 1]\<rparr>"

text \<open>
  The same run without a hub: both labels are 0, and \<^verbatim>\<open>negative_sample_rate = 2\<close>.
\<close>

definition ex_nohub_args :: kargs where
  "ex_nohub_args = ex_args\<lparr>hub_info := [0, 0]\<rparr>"

definition ex_nohub_kargs :: kargs where
  "ex_nohub_kargs = ex_nohub_args\<lparr>dim' := 1, move_other := True,
     epochs_per_negative_sample := [Fin (1 / 2)]\<rparr>"

definition ex_nohub_state :: "real \<Rightarrow> nat kstate" where
  "ex_nohub_state next = \<lparr>arrays = ex_store, rng_state = 0, epoch_of_next_sample = [next],
     epoch_of_next_negative_sample = [Fin (1 / 2)]\<rparr>"



text \<open>
  Four points on a square in one array, a ring of three edges over the vertices 0, 1
  and 2, hub labels \<^verbatim>\<open>[1, 1, 1, 0]\<close>.
\<close>

definition ex_square :: store where
  "ex_square = (\<lambda>_. [])(0 := [[0, 0], [1, 0], [1, 1], [0, 1]])"

definition ex_ring_args :: "real list \<Rightarrow> kargs" where
  "ex_ring_args eps = \<lparr>head_embedding = 0, tail_embedding = 0, head = [0, 1, 2], tail = [1, 2, 0],
     hub_info = [1, 1, 1, 0], n_vertices = 4, epochs_per_sample = eps, curve_a = 1, curve_b = 1,
     gamma = 1, dim' = 0, move_other = False, epochs_per_negative_sample = []\<rparr>"

definition ex_ring_state :: "store \<Rightarrow> real list \<Rightarrow> fl list \<Rightarrow> nat kstate" where
  "ex_ring_state s next next_neg = \<lparr>arrays = s, rng_state = 0, epoch_of_next_sample = next,
     epoch_of_next_negative_sample = next_neg\<rparr>"

section \<open>Rounding\<close>

lemma round_even_of_int: "round_even (of_int k) = k"
  by (simp add: round_even_def)





lemma round_double_dyadic:
  assumes "\<bar>m\<bar> < 2 ^ 53"
  shows "round_double (of_int m * 2 powi e) = of_int m * 2 powi e"
proof (cases "m = 0")
  case True thus ?thesis by (simp add: round_double_def)
next
  case False
  define x :: real where "x = of_int m * 2 powi e"
  define b where "b = \<lfloor>log 2 \<bar>x\<bar>\<rfloor>"
  have x0: "x \<noteq> 0" using False by (simp add: x_def)
  have "\<bar>x\<bar> < 2 powi (53 + e)"
  proof -
    have "\<bar>x\<bar> = of_int \<bar>m\<bar> * 2 powi e" by (simp add: x_def abs_mult)
    also have "\<dots> < 2 ^ 53 * 2 powi e"
    proof -
      have "(of_int \<bar>m\<bar> :: real) < of_int (2 ^ 53)" using assms by (simp only: of_int_less_iff)
      thus ?thesis by simp
    qed
    also have "\<dots> = 2 powi (53 + e)" by (simp add: power_int_add)
    finally show ?thesis .
  qed
  moreover have "(2::real) powr (of_int (53 + e)) = 2 powi (53 + e)"
    by (rule powr_real_of_int') simp_all
  ultimately have "\<bar>x\<bar> < 2 powr (of_int (53 + e))" by (simp only:)
  hence "log 2 \<bar>x\<bar> < of_int (53 + e)"
    by (subst log_less_iff) (simp, use x0 in simp, assumption)
  hence "b < 53 + e" unfolding b_def by (simp add: floor_less_iff)
  hence le: "0 \<le> e - (b - 52)" by simp
  have "x / 2 powi (b - 52) = of_int m * 2 powi (e - (b - 52))"
    by (simp add: x_def power_int_diff)
  also have "\<dots> = of_int (m * 2 ^ nat (e - (b - 52)))"
    using le by (simp add: power_int_def)
  finally have "round_even (x / 2 powi (b - 52)) = m * 2 ^ nat (e - (b - 52))"
    by (simp only: round_even_of_int)
  hence "round_double x = of_int (m * 2 ^ nat (e - (b - 52))) * 2 powi (b - 52)"
    using x0 by (simp add: round_double_def b_def)
  also have "\<dots> = of_int m * (2 powi (e - (b - 52)) * 2 powi (b - 52))"
    using le by (simp add: power_int_def)
  also have "\<dots> = x" by (simp add: x_def flip: power_int_add)
  finally show ?thesis by (simp add: x_def)
qed

lemma round_double_of_int: "\<bar>m\<bar> < 2 ^ 53 \<Longrightarrow> round_double (of_int m) = of_int m"
  using round_double_dyadic [of m 0] by simp

lemma round_double_simps:
  "round_double 0 = 0" "round_double 1 = 1" "round_double (- 1) = - 1"
  "round_double (1 / 2) = 1 / 2" "round_double (10 ^ 17) = 10 ^ 17"
  "round_double (- (10 ^ 17)) = - (10 ^ 17)"
  using round_double_of_int [of 1] round_double_of_int [of "- 1"] round_double_dyadic [of 1 "- 1"]
    round_double_dyadic [of "5 ^ 17" 17] round_double_dyadic [of "- (5 ^ 17)" 17]
  by (simp_all add: round_double_def)


section \<open>Properties of the steps of one edge\<close>

lemma view_add_zero:
  "view_get s v d = Inr c \<Longrightarrow> view_add s v d 0 = s"
  by (auto simp: view_get_def view_add_def view_row_def nth_err_def split: if_splits)

lemma ex_store_get: "view_get ex_store (0, 0) 0 = Inr 0" "view_get ex_store (0, 1) 0 = Inr 1"
  by (simp_all add: view_get_def view_row_def ex_store_def nth_err_def)

lemma rdist_same: "rdist x x = 0"
  by (induction x) (simp_all add: rdist_def)

lemma mk_view_valid:
  "mk_view s arr j = Inr v \<Longrightarrow> fst v = arr \<and> snd v < length (s arr)"
  by (auto simp: mk_view_def py_index_def split: if_splits)

lemma view_row_add_same:
  "snd v < length (s (fst v)) \<Longrightarrow>
   view_row (view_add s v d x) v = (view_row s v)[d := view_row s v ! d + x]"
  by (simp add: view_row_def view_add_def)

lemma view_row_add_other:
  "w \<noteq> v \<Longrightarrow> view_row (view_add s v d x) w = view_row s w"
  by (cases v; cases w) (auto simp: view_row_def view_add_def)

lemma length_view_add: "length (view_add s v d x a) = length (s a)"
  by (simp add: view_add_def)

lemma for_each_append:
  "for_each body (xs @ ys) s =
     (case for_each body xs s of Raised e s' \<Rightarrow> Raised e s' | Returns s' \<Rightarrow> for_each body ys s')"
  by (induction xs arbitrary: s) (auto split: res.splits)

lemma attract_dim_rows:
  assumes cur: "snd current < length (s (fst current))"
    and oth: "snd other < length (s (fst other))"
    and ne: "current \<noteq> other"
    and h: "np_get hub k = Inr h"
    and d: "d < length (view_row s current)" "d < length (view_row s other)"
  shows "\<exists>s'. attract_dim hub k mv alpha g current other d s = Returns s' \<and>
     view_row s' current = (view_row s current)
        [d := view_row s current ! d +
           attr_grad_d g (view_row s current ! d) (view_row s other ! d) * alpha * grad_current h] \<and>
     view_row s' other = (view_row s other)
        [d := view_row s other ! d -
           (if mv then attr_grad_d g (view_row s current ! d) (view_row s other ! d) * alpha *
              grad_other h else 0)] \<and>
     (\<forall>v. v \<noteq> current \<longrightarrow> v \<noteq> other \<longrightarrow> view_row s' v = view_row s v) \<and>
     (\<forall>a. length (s' a) = length (s a))"
proof -
  let ?x = "attr_grad_d g (view_row s current ! d) (view_row s other ! d) * alpha * grad_current h"
  let ?y = "- attr_grad_d g (view_row s current ! d) (view_row s other ! d) * alpha * grad_other h"
  let ?s1 = "view_add s current d ?x"
  have r1: "view_row ?s1 current = (view_row s current)[d := view_row s current ! d + ?x]"
    "view_row ?s1 other = view_row s other"
    using cur ne by (simp_all add: view_row_add_same view_row_add_other)
  have oth1: "snd other < length (?s1 (fst other))"
    using oth by (simp add: length_view_add)
  show ?thesis
  proof (cases mv)
    case False
    have "attract_dim hub k mv alpha g current other d s = Returns ?s1"
      using d h False by (simp add: attract_dim_def view_get_def nth_err_def Let_def)
    moreover have "(view_row s other)[d := view_row s other ! d - 0] = view_row s other"
      by simp
    ultimately show ?thesis
      using r1 False by (simp add: view_row_add_other length_view_add)
  next
    case True
    let ?s2 = "view_add ?s1 other d ?y"
    have "attract_dim hub k mv alpha g current other d s = Returns ?s2"
      using d h True r1 by (simp add: attract_dim_def view_get_def nth_err_def Let_def)
    moreover have "view_row ?s2 other = (view_row s other)[d := view_row s other ! d + ?y]"
      using oth1 r1 by (simp add: view_row_add_same)
    moreover have "view_row ?s2 current = view_row ?s1 current"
      using ne by (simp add: view_row_add_other)
    ultimately show ?thesis
      using r1 True by (simp add: view_row_add_other length_view_add)
  qed
qed

lemma attract_loop_rows:
  assumes cur: "snd current < length (s (fst current))"
    and oth: "snd other < length (s (fst other))"
    and ne: "current \<noteq> other"
    and h: "np_get hub k = Inr h"
    and lc: "length (view_row s current) = dm" and lo: "length (view_row s other) = dm"
  shows "m \<le> dm \<Longrightarrow>
     \<exists>s'. for_each (attract_dim hub k mv alpha g current other) [0..<m] s = Returns s' \<and>
       length (view_row s' current) = dm \<and> length (view_row s' other) = dm \<and>
       (\<forall>d<dm. view_row s' current ! d =
          (if d < m
           then view_row s current ! d +
             attr_grad_d g (view_row s current ! d) (view_row s other ! d) * alpha * grad_current h
           else view_row s current ! d)) \<and>
       (\<forall>d<dm. view_row s' other ! d =
          (if d < m
           then view_row s other ! d -
             (if mv then attr_grad_d g (view_row s current ! d) (view_row s other ! d) * alpha *
                grad_other h else 0)
           else view_row s other ! d)) \<and>
       (\<forall>v. v \<noteq> current \<longrightarrow> v \<noteq> other \<longrightarrow> view_row s' v = view_row s v) \<and>
       (\<forall>a. length (s' a) = length (s a))"
proof (induction m)
  case 0
  then show ?case using lc lo by simp
next
  case (Suc m)
  then have m: "m < dm" by simp
  from Suc obtain s1 where s1:
    "for_each (attract_dim hub k mv alpha g current other) [0..<m] s = Returns s1"
    "length (view_row s1 current) = dm" "length (view_row s1 other) = dm"
    "\<forall>d<dm. view_row s1 current ! d =
          (if d < m
           then view_row s current ! d +
             attr_grad_d g (view_row s current ! d) (view_row s other ! d) * alpha * grad_current h
           else view_row s current ! d)"
    "\<forall>d<dm. view_row s1 other ! d =
          (if d < m
           then view_row s other ! d -
             (if mv then attr_grad_d g (view_row s current ! d) (view_row s other ! d) * alpha *
                grad_other h else 0)
           else view_row s other ! d)"
    "\<forall>v. v \<noteq> current \<longrightarrow> v \<noteq> other \<longrightarrow> view_row s1 v = view_row s v"
    "\<forall>a. length (s1 a) = length (s a)"
    by auto
  have at: "view_row s1 current ! m = view_row s current ! m"
    "view_row s1 other ! m = view_row s other ! m"
    using s1(4,5) m by simp_all
  have "\<exists>s'. attract_dim hub k mv alpha g current other m s1 = Returns s' \<and>
     view_row s' current = (view_row s1 current)
        [m := view_row s1 current ! m +
           attr_grad_d g (view_row s1 current ! m) (view_row s1 other ! m) * alpha * grad_current h] \<and>
     view_row s' other = (view_row s1 other)
        [m := view_row s1 other ! m -
           (if mv then attr_grad_d g (view_row s1 current ! m) (view_row s1 other ! m) * alpha *
              grad_other h else 0)] \<and>
     (\<forall>v. v \<noteq> current \<longrightarrow> v \<noteq> other \<longrightarrow> view_row s' v = view_row s1 v) \<and>
     (\<forall>a. length (s' a) = length (s1 a))"
    using cur oth ne h s1(2,3,7) m by (intro attract_dim_rows) simp_all
  then obtain s2 where s2: "attract_dim hub k mv alpha g current other m s1 = Returns s2"
    "view_row s2 current = (view_row s1 current)
        [m := view_row s current ! m +
           attr_grad_d g (view_row s current ! m) (view_row s other ! m) * alpha * grad_current h]"
    "view_row s2 other = (view_row s1 other)
        [m := view_row s other ! m -
           (if mv then attr_grad_d g (view_row s current ! m) (view_row s other ! m) * alpha *
              grad_other h else 0)]"
    "\<forall>v. v \<noteq> current \<longrightarrow> v \<noteq> other \<longrightarrow> view_row s2 v = view_row s1 v"
    "\<forall>a. length (s2 a) = length (s1 a)"
    unfolding at by blast
  have run: "for_each (attract_dim hub k mv alpha g current other) [0..<Suc m] s = Returns s2"
    using s1(1) s2(1) by (simp add: for_each_append)
  have c: "\<forall>d<dm. view_row s2 current ! d =
          (if d < Suc m
           then view_row s current ! d +
             attr_grad_d g (view_row s current ! d) (view_row s other ! d) * alpha * grad_current h
           else view_row s current ! d)"
    using s1(2,4) m unfolding s2(2) by (auto simp: nth_list_update less_Suc_eq)
  have o: "\<forall>d<dm. view_row s2 other ! d =
          (if d < Suc m
           then view_row s other ! d -
             (if mv then attr_grad_d g (view_row s current ! d) (view_row s other ! d) * alpha *
                grad_other h else 0)
           else view_row s other ! d)"
    using s1(3,5) m unfolding s2(3) by (auto simp: nth_list_update less_Suc_eq)
  have len: "length (view_row s2 current) = dm" "length (view_row s2 other) = dm"
    using s1(2,3) by (simp_all add: s2(2,3))
  have fr: "\<forall>v. v \<noteq> current \<longrightarrow> v \<noteq> other \<longrightarrow> view_row s2 v = view_row s v"
    "\<forall>a. length (s2 a) = length (s a)"
    using s1(6,7) s2(4,5) by simp_all
  show ?case
    using run c o len fr by blast
qed

lemma view_get_add_same:
  "snd v < length (s (fst v)) \<Longrightarrow> view_get s v d = Inr c \<Longrightarrow>
   view_get (view_add s v d x) v d = Inr (c + x)"
  by (auto simp: view_get_def view_row_add_same nth_err_def split: if_splits)

lemma view_get_add_other:
  "w \<noteq> v \<Longrightarrow> view_get (view_add s v d x) w e = view_get s w e"
  by (simp add: view_get_def view_row_add_other)

lemma clip_bound: "\<bar>clip x 10\<bar> \<le> 10"
  by (auto simp: clip_def)

lemma attract_loop_same:
  assumes "length (view_row s v) = dm" and "np_get hub k = Inr h"
  shows "m \<le> dm \<Longrightarrow> for_each (attract_dim hub k mv alpha 0 v v) [0..<m] s = Returns s"
proof (induction m)
  case 0
  then show ?case by simp
next
  case (Suc m)
  then have m: "m < length (view_row s v)" using assms by simp
  have z: "view_add s v m 0 = s"
    using m view_add_zero [of s v m] by (simp add: view_get_def nth_err_def)
  have step: "attract_dim hub k mv alpha 0 v v m s = Returns s"
    using m z assms(2)
    by (simp add: attract_dim_def view_get_def nth_err_def attr_grad_d_def clip_def Let_def)
  show ?case
    using Suc step by (simp add: for_each_append)
qed

text \<open>
  C7. The attractive step of a fired edge \<open>i\<close>, with head vertex \<open>j = head[i]\<close> and tail
  vertex \<open>k = tail[i]\<close>, whose two rows hold \<^verbatim>\<open>dim\<close> coordinates each. When the rows are
  different, the step returns, and the arrays it leaves are these: in every dimension the
  head row has moved by the clipped displacement times \<open>alpha\<close> times the factor of the hub
  label \<open>h\<close> of the tail vertex (0.01 for the labels 1 and 2, 0 otherwise); the tail row
  has moved the other way by the factor 0.01 for label 1 and 0.001 for label 2 (0
  otherwise) when \<^verbatim>\<open>move_other\<close> holds, and is as it was when it does not; every other row
  is as it was. When the two rows are one row (an edge from a vertex to itself in one
  array) nothing changes.
\<close>

theorem attract_scale_by_hub_label:
  assumes "nth_err (head K) i = Inr j" and "nth_err (tail K) i = Inr k"
    and "mk_view s (head_embedding K) j = Inr current"
    and "mk_view s (tail_embedding K) k = Inr other"
    and "np_get (hub_info K) k = Inr h"
    and "attract_coeff (curve_a K) (curve_b K) (rdist (view_row s current) (view_row s other)) =
           Inr g"
    and "length (view_row s current) = dim' K" and "length (view_row s other) = dim' K"
  shows "(current \<noteq> other \<longrightarrow>
      (\<exists>s'. edge_attract K alpha i s = Returns s' \<and>
         view_row s' current =
           map (\<lambda>d. view_row s current ! d +
                  clip (g * (view_row s current ! d - view_row s other ! d)) 10 * alpha *
                    (if h = 1 then 0.01 else if h = 2 then 0.01 else 0)) [0..<dim' K] \<and>
         view_row s' other =
           map (\<lambda>d. view_row s other ! d -
                  (if move_other K
                   then clip (g * (view_row s current ! d - view_row s other ! d)) 10 * alpha *
                     (if h = 1 then 0.01 else if h = 2 then 0.001 else 0)
                   else 0)) [0..<dim' K] \<and>
         (\<forall>v. v \<noteq> current \<longrightarrow> v \<noteq> other \<longrightarrow> view_row s' v = view_row s v) \<and>
         (\<forall>a. length (s' a) = length (s a)))) \<and>
     (current = other \<longrightarrow> edge_attract K alpha i s = Returns s)"
proof (intro conjI impI)
  assume ne: "current \<noteq> other"
  have v: "snd current < length (s (fst current))" "snd other < length (s (fst other))"
    using assms(3,4) mk_view_valid by fastforce+
  obtain s' where s': "for_each (attract_dim (hub_info K) k (move_other K) alpha g current other)
        [0..<dim' K] s = Returns s'"
    "length (view_row s' current) = dim' K" "length (view_row s' other) = dim' K"
    "\<forall>d<dim' K. view_row s' current ! d =
          (if d < dim' K
           then view_row s current ! d +
             attr_grad_d g (view_row s current ! d) (view_row s other ! d) * alpha * grad_current h
           else view_row s current ! d)"
    "\<forall>d<dim' K. view_row s' other ! d =
          (if d < dim' K
           then view_row s other ! d -
             (if move_other K
              then attr_grad_d g (view_row s current ! d) (view_row s other ! d) * alpha *
                grad_other h else 0)
           else view_row s other ! d)"
    "\<forall>v. v \<noteq> current \<longrightarrow> v \<noteq> other \<longrightarrow> view_row s' v = view_row s v"
    "\<forall>a. length (s' a) = length (s a)"
    using attract_loop_rows [OF v ne assms(5,7,8) order_refl, of "move_other K" alpha g] by blast
  have run: "edge_attract K alpha i s = Returns s'"
    using assms s'(1) by (simp add: edge_attract_def attract_loop_def)
  have c: "view_row s' current =
           map (\<lambda>d. view_row s current ! d +
                  clip (g * (view_row s current ! d - view_row s other ! d)) 10 * alpha *
                    (if h = 1 then 0.01 else if h = 2 then 0.01 else 0)) [0..<dim' K]"
    using s'(2,4) by (intro nth_equalityI) (simp_all add: attr_grad_d_def grad_current_def)
  have o: "view_row s' other =
           map (\<lambda>d. view_row s other ! d -
                  (if move_other K
                   then clip (g * (view_row s current ! d - view_row s other ! d)) 10 * alpha *
                     (if h = 1 then 0.01 else if h = 2 then 0.001 else 0)
                   else 0)) [0..<dim' K]"
    using s'(3,5) by (intro nth_equalityI) (simp_all add: attr_grad_d_def grad_other_def)
  show "\<exists>s'. edge_attract K alpha i s = Returns s' \<and>
         view_row s' current =
           map (\<lambda>d. view_row s current ! d +
                  clip (g * (view_row s current ! d - view_row s other ! d)) 10 * alpha *
                    (if h = 1 then 0.01 else if h = 2 then 0.01 else 0)) [0..<dim' K] \<and>
         view_row s' other =
           map (\<lambda>d. view_row s other ! d -
                  (if move_other K
                   then clip (g * (view_row s current ! d - view_row s other ! d)) 10 * alpha *
                     (if h = 1 then 0.01 else if h = 2 then 0.001 else 0)
                   else 0)) [0..<dim' K] \<and>
         (\<forall>v. v \<noteq> current \<longrightarrow> v \<noteq> other \<longrightarrow> view_row s' v = view_row s v) \<and>
         (\<forall>a. length (s' a) = length (s a))"
    using run c o s'(6,7) by blast
next
  assume eq: "current = other"
  then have g: "g = 0"
    using assms(6) by (simp add: rdist_same attract_coeff_def)
  show "edge_attract K alpha i s = Returns s"
    using assms eq attract_loop_same [OF assms(7,5) order_refl, of "move_other K" alpha]
    by (simp add: edge_attract_def attract_loop_def g rdist_same attract_coeff_def)
qed

theorem attract_scale_by_hub_label_witness:
  "(\<exists>s'. edge_attract (ex_kargs\<lparr>hub_info := [1, 1], move_other := True\<rparr>) 1 0 ex_store = Returns s' \<and>
      view_row s' (0, 0) = [0.01] \<and> view_row s' (0, 1) = [0.99]) \<and>
   (\<exists>s'. edge_attract (ex_kargs\<lparr>hub_info := [1, 2], move_other := True\<rparr>) 1 0 ex_store = Returns s' \<and>
      view_row s' (0, 0) = [0.01] \<and> view_row s' (0, 1) = [0.999]) \<and>
   (\<exists>s'. edge_attract (ex_kargs\<lparr>hub_info := [1, 0], move_other := True\<rparr>) 1 0 ex_store = Returns s' \<and>
      view_row s' (0, 0) = [0] \<and> view_row s' (0, 1) = [1]) \<and>
   (\<exists>s'. edge_attract (ex_kargs\<lparr>hub_info := [1, 1], move_other := False\<rparr>) 1 0 ex_store = Returns s' \<and>
      view_row s' (0, 0) = [0.01] \<and> view_row s' (0, 1) = [1]) \<and>
   edge_attract (ex_kargs\<lparr>hub_info := [2, 2], head := [1]\<rparr>) 1 0 ex_store = Returns ex_store"
proof -
  have rows: "view_row ex_store (0, 0) = [0]" "view_row ex_store (0, Suc 0) = [1]"
    by (simp_all add: view_row_def ex_store_def)
  have inst: "\<exists>s'. edge_attract (ex_kargs\<lparr>hub_info := [1, h], move_other := mv\<rparr>) 1 0 ex_store = Returns s' \<and>
      view_row s' (0, 0) = [(if h = 1 then 0.01 else if h = 2 then 0.01 else 0)] \<and>
      view_row s' (0, 1) = [1 - (if mv then (if h = 1 then 0.01 else if h = 2 then 0.001 else 0) else 0)]"
    for h mv
  proof -
    let ?K = "ex_kargs\<lparr>hub_info := [1, h], move_other := mv\<rparr>"
    have hyps: "nth_err (head ?K) 0 = Inr 0" "nth_err (tail ?K) 0 = Inr 1"
      "mk_view ex_store (head_embedding ?K) 0 = Inr (0, 0)"
      "mk_view ex_store (tail_embedding ?K) 1 = Inr (0, 1)"
      "np_get (hub_info ?K) 1 = Inr h"
      "attract_coeff (curve_a ?K) (curve_b ?K)
         (rdist (view_row ex_store (0, 0)) (view_row ex_store (0, 1))) = Inr (- 1)"
      "length (view_row ex_store (0, 0)) = dim' ?K" "length (view_row ex_store (0, 1)) = dim' ?K"
      by (simp_all add: ex_kargs_def ex_args_def nth_err_def mk_view_def py_index_def ex_store_def
          np_get_def attract_coeff_def rdist_def view_row_def pow_def)
    have d: "dim' ?K = 1" "move_other ?K = mv"
      by (simp_all add: ex_kargs_def)
    have c: "clip 1 10 = 1"
      by (simp add: clip_def)
    have ne: "((0::nat), (0::nat)) \<noteq> (0, 1)"
      by simp
    from attract_scale_by_hub_label [OF hyps, of 1] ne
    obtain s' where s': "edge_attract ?K 1 0 ex_store = Returns s'"
      "view_row s' (0, 0) =
           map (\<lambda>d. view_row ex_store (0, 0) ! d +
                  clip (- 1 * (view_row ex_store (0, 0) ! d - view_row ex_store (0, 1) ! d)) 10 * 1 *
                    (if h = 1 then 0.01 else if h = 2 then 0.01 else 0)) [0..<dim' ?K]"
      "view_row s' (0, 1) =
           map (\<lambda>d. view_row ex_store (0, 1) ! d -
                  (if move_other ?K
                   then clip (- 1 * (view_row ex_store (0, 0) ! d - view_row ex_store (0, 1) ! d)) 10 * 1 *
                     (if h = 1 then 0.01 else if h = 2 then 0.001 else 0)
                   else 0)) [0..<dim' ?K]"
      by blast
    have "view_row s' (0, 0) = [(if h = 1 then 0.01 else if h = 2 then 0.01 else 0)]"
      unfolding s'(2) by (simp add: d rows c)
    moreover have "view_row s' (0, 1) =
        [1 - (if mv then (if h = 1 then 0.01 else if h = 2 then 0.001 else 0) else 0)]"
      unfolding s'(3) by (simp add: d rows c)
    ultimately show ?thesis
      using s'(1) by blast
  qed
  have self: "edge_attract (ex_kargs\<lparr>hub_info := [2, 2], head := [1]\<rparr>) 1 0 ex_store = Returns ex_store"
  proof -
    let ?K = "ex_kargs\<lparr>hub_info := [2, 2], head := [1]\<rparr>"
    have hyps: "nth_err (head ?K) 0 = Inr 1" "nth_err (tail ?K) 0 = Inr 1"
      "mk_view ex_store (head_embedding ?K) 1 = Inr (0, 1)"
      "mk_view ex_store (tail_embedding ?K) 1 = Inr (0, 1)"
      "np_get (hub_info ?K) 1 = Inr 2"
      "attract_coeff (curve_a ?K) (curve_b ?K)
         (rdist (view_row ex_store (0, 1)) (view_row ex_store (0, 1))) = Inr 0"
      "length (view_row ex_store (0, 1)) = dim' ?K" "length (view_row ex_store (0, 1)) = dim' ?K"
      by (simp_all add: ex_kargs_def ex_args_def nth_err_def mk_view_def py_index_def ex_store_def
          np_get_def attract_coeff_def rdist_def view_row_def pow_def)
    show ?thesis
      using attract_scale_by_hub_label [OF hyps, of 1] by simp
  qed
  have i1: "\<exists>s'. edge_attract (ex_kargs\<lparr>hub_info := [1, 1], move_other := True\<rparr>) 1 0 ex_store = Returns s' \<and>
      view_row s' (0, 0) = [0.01] \<and> view_row s' (0, 1) = [0.99]"
    using inst [where h = 1 and mv = True] by simp
  have i2: "\<exists>s'. edge_attract (ex_kargs\<lparr>hub_info := [1, 2], move_other := True\<rparr>) 1 0 ex_store = Returns s' \<and>
      view_row s' (0, 0) = [0.01] \<and> view_row s' (0, 1) = [0.999]"
    using inst [where h = 2 and mv = True] by simp
  have i3: "\<exists>s'. edge_attract (ex_kargs\<lparr>hub_info := [1, 0], move_other := True\<rparr>) 1 0 ex_store = Returns s' \<and>
      view_row s' (0, 0) = [0] \<and> view_row s' (0, 1) = [1]"
    using inst [where h = 0 and mv = True] by simp
  have i4: "\<exists>s'. edge_attract (ex_kargs\<lparr>hub_info := [1, 1], move_other := False\<rparr>) 1 0 ex_store = Returns s' \<and>
      view_row s' (0, 0) = [0.01] \<and> view_row s' (0, 1) = [1]"
    using inst [where h = 1 and mv = False] by simp
  show ?thesis
    by (intro conjI i1 i2 i3 i4 self)
qed

text \<open>
  C9. Every update of one dimension that the kernel applies adds to a coordinate a
  displacement \<open>g\<close> with \<open>\<bar>g\<bar> \<le> 10\<close>, times the learning rate and the scale factor: in the
  attractive step (\<open>attract_dim\<close>) \<open>g\<close> is the clipped product, added to the head
  coordinate and, under \<^verbatim>\<open>move_other\<close>, subtracted from the tail coordinate; in the
  repulsive step (\<open>neg_dim\<close>) \<open>g\<close> is the clipped product, or the flat value 10 when the
  coefficient is not positive. The coordinates are read back from the arrays that the
  step leaves. The bound is that of \<open>clip\<close>, which is modelled from the spec.
\<close>

theorem displacement_clipped:
  assumes "mk_view s hemb j = Inr current" and "mk_view s temb k = Inr other"
  shows "(current \<noteq> other \<longrightarrow>
          attract_dim hub k mv alpha gc current other d s = Returns s' \<longrightarrow>
          (\<exists>g c o' h. \<bar>g\<bar> \<le> 10 \<and> g = clip (gc * (c - o')) 10 \<and>
             view_get s current d = Inr c \<and> view_get s other d = Inr o' \<and>
             np_get hub k = Inr h \<and>
             view_get s' current d = Inr (c + g * alpha * grad_current h) \<and>
             view_get s' other d = Inr (if mv then o' - g * alpha * grad_other h else o'))) \<and>
         (neg_dim alpha gc current other d s = Returns s' \<longrightarrow>
          (\<exists>g c. \<bar>g\<bar> \<le> 10 \<and> (gc \<le> 0 \<longrightarrow> g = 10) \<and>
             view_get s current d = Inr c \<and>
             view_get s' current d = Inr (c + g * alpha * grad_neg)))"
proof (intro conjI impI)
  have v: "snd current < length (s (fst current))" "snd other < length (s (fst other))"
    using assms mk_view_valid by fastforce+
  {
    assume ne: "current \<noteq> other"
      and run: "attract_dim hub k mv alpha gc current other d s = Returns s'"
    from run obtain c o' h where r: "view_get s current d = Inr c" "view_get s other d = Inr o'"
      "np_get hub k = Inr h"
      by (auto simp: attract_dim_def split: sum.splits)
    let ?g = "clip (gc * (c - o')) 10"
    let ?s1 = "view_add s current d (?g * alpha * grad_current h)"
    have o1: "view_get ?s1 other d = Inr o'"
      using ne r(2) by (simp add: view_get_add_other)
    have c1: "view_get ?s1 current d = Inr (c + ?g * alpha * grad_current h)"
      using v(1) r(1) by (rule view_get_add_same)
    have v1: "snd other < length (?s1 (fst other))"
      using v(2) by (simp add: length_view_add)
    have s': "s' = (if mv then view_add ?s1 other d (- ?g * alpha * grad_other h) else ?s1)"
      using run r o1 by (simp add: attract_dim_def attr_grad_d_def Let_def split: if_splits)
    have "view_get s' current d = Inr (c + ?g * alpha * grad_current h)"
      using c1 ne by (simp add: s' view_get_add_other)
    moreover have "view_get s' other d = Inr (if mv then o' - ?g * alpha * grad_other h else o')"
      using o1 view_get_add_same [OF v1 o1, of "- ?g * alpha * grad_other h"] by (simp add: s')
    ultimately show "\<exists>g c o' h. \<bar>g\<bar> \<le> 10 \<and> g = clip (gc * (c - o')) 10 \<and>
             view_get s current d = Inr c \<and> view_get s other d = Inr o' \<and>
             np_get hub k = Inr h \<and>
             view_get s' current d = Inr (c + g * alpha * grad_current h) \<and>
             view_get s' other d = Inr (if mv then o' - g * alpha * grad_other h else o')"
      using r clip_bound by blast
  }
  {
    assume run: "neg_dim alpha gc current other d s = Returns s'"
    from run obtain g c where r: "neg_grad_d gc current other d s = Inr g"
      "view_get s current d = Inr c" "s' = view_add s current d (g * alpha * grad_neg)"
      by (auto simp: neg_dim_def split: sum.splits)
    have "\<bar>g\<bar> \<le> 10" "gc \<le> 0 \<longrightarrow> g = 10"
      using r(1) clip_bound by (auto simp: neg_grad_d_def split: if_splits sum.splits)
    moreover have "view_get s' current d = Inr (c + g * alpha * grad_neg)"
      unfolding r(3) using v(1) r(2) by (rule view_get_add_same)
    ultimately show "\<exists>g c. \<bar>g\<bar> \<le> 10 \<and> (gc \<le> 0 \<longrightarrow> g = 10) \<and>
             view_get s current d = Inr c \<and>
             view_get s' current d = Inr (c + g * alpha * grad_neg)"
      using r(2) by blast
  }
qed

theorem displacement_clipped_witness:
  "mk_view ex_store 0 0 = Inr (0, 0) \<and> mk_view ex_store 0 1 = Inr (0, 1) \<and>
   attract_dim [1, 1] 1 True 1 100 (0, 0) (0, 1) 0 ex_store =
     Returns (ex_store(0 := [[- 0.1], [1.1]])) \<and>
   (\<exists>g. \<bar>g\<bar> \<le> 10 \<and> g = clip (100 * (0 - 1)) 10 \<and>
      view_get (ex_store(0 := [[- 0.1], [1.1]])) (0, 0) 0 = Inr (0 + g * 1 * grad_current 1) \<and>
      view_get (ex_store(0 := [[- 0.1], [1.1]])) (0, 1) 0 = Inr (1 - g * 1 * grad_other 1)) \<and>
   neg_dim 1 100 (0, 0) (0, 1) 0 ex_store = Returns (ex_store(0 := [[- 0.01], [1]])) \<and>
   (\<exists>g. \<bar>g\<bar> \<le> 10 \<and>
      view_get (ex_store(0 := [[- 0.01], [1]])) (0, 0) 0 = Inr (0 + g * 1 * grad_neg)) \<and>
   neg_dim 1 0 (0, 0) (0, 1) 0 ex_store = Returns (ex_store(0 := [[0.01], [1]])) \<and>
   (\<exists>g. g = 10 \<and>
      view_get (ex_store(0 := [[0.01], [1]])) (0, 0) 0 = Inr (0 + g * 1 * grad_neg))"
proof -
  have v: "mk_view ex_store 0 0 = Inr (0, 0)" "mk_view ex_store 0 1 = Inr (0, 1)"
    by (simp_all add: mk_view_def ex_store_def py_index_def)
  have ne: "((0::nat), (0::nat)) \<noteq> (0, 1)"
    by simp
  have h: "np_get [1, 1] 1 = Inr (1::int)"
    by (simp add: np_get_def py_index_def)
  have a: "attract_dim [1, 1] 1 True 1 100 (0, 0) (0, 1) 0 ex_store =
     Returns (ex_store(0 := [[- 0.1], [1.1]]))"
    by (simp add: attract_dim_def view_get_def view_row_def ex_store_def nth_err_def np_get_def
        py_index_def attr_grad_d_def clip_def grad_current_def grad_other_def view_add_def Let_def)
  have n1: "neg_dim 1 100 (0, 0) (0, 1) 0 ex_store = Returns (ex_store(0 := [[- 0.01], [1]]))"
    by (simp add: neg_dim_def neg_grad_d_def view_get_def view_row_def ex_store_def nth_err_def
        clip_def grad_neg_def view_add_def)
  have n2: "neg_dim 1 0 (0, 0) (0, 1) 0 ex_store = Returns (ex_store(0 := [[0.01], [1]]))"
    by (simp add: neg_dim_def neg_grad_d_def view_get_def view_row_def ex_store_def nth_err_def
        clip_def grad_neg_def view_add_def)
  note get = ex_store_get
  from displacement_clipped [OF v, where hub = "[1, 1]" and mv = True and alpha = 1 and gc = 100
      and d = 0 and s' = "ex_store(0 := [[- 0.1], [1.1]])"] ne a
  obtain g c o' hh where 1: "\<bar>g\<bar> \<le> 10" "g = clip (100 * (c - o')) 10"
    "view_get ex_store (0, 0) 0 = Inr c" "view_get ex_store (0, 1) 0 = Inr o'"
    "np_get [1, 1] 1 = Inr hh"
    "view_get (ex_store(0 := [[- 0.1], [1.1]])) (0, 0) 0 = Inr (c + g * 1 * grad_current hh)"
    "view_get (ex_store(0 := [[- 0.1], [1.1]])) (0, 1) 0 =
       Inr (if True then o' - g * 1 * grad_other hh else o')"
    by blast
  have "c = 0" "o' = 1" "hh = 1"
    using 1(3,4,5) get h by simp_all
  with 1 have r1: "\<exists>g. \<bar>g\<bar> \<le> 10 \<and> g = clip (100 * (0 - 1)) 10 \<and>
      view_get (ex_store(0 := [[- 0.1], [1.1]])) (0, 0) 0 = Inr (0 + g * 1 * grad_current 1) \<and>
      view_get (ex_store(0 := [[- 0.1], [1.1]])) (0, 1) 0 = Inr (1 - g * 1 * grad_other 1)"
    by (intro exI [of _ g]) simp
  from displacement_clipped [OF v, where alpha = 1 and gc = 100
      and d = 0 and s' = "ex_store(0 := [[- 0.01], [1]])"] n1
  obtain g2 c2 where 2: "\<bar>g2\<bar> \<le> 10" "view_get ex_store (0, 0) 0 = Inr c2"
    "view_get (ex_store(0 := [[- 0.01], [1]])) (0, 0) 0 = Inr (c2 + g2 * 1 * grad_neg)"
    by blast
  have "c2 = 0"
    using 2(2) get by simp
  with 2 have r2: "\<exists>g. \<bar>g\<bar> \<le> 10 \<and>
      view_get (ex_store(0 := [[- 0.01], [1]])) (0, 0) 0 = Inr (0 + g * 1 * grad_neg)"
    by (intro exI [of _ g2]) simp
  from displacement_clipped [OF v, where alpha = 1 and gc = 0
      and d = 0 and s' = "ex_store(0 := [[0.01], [1]])"] n2
  obtain g3 c3 where 3: "(0::real) \<le> 0 \<longrightarrow> g3 = 10" "view_get ex_store (0, 0) 0 = Inr c3"
    "view_get (ex_store(0 := [[0.01], [1]])) (0, 0) 0 = Inr (c3 + g3 * 1 * grad_neg)"
    by blast
  have "c3 = 0" "g3 = 10"
    using 3(1,2) get by simp_all
  with 3 have r3: "\<exists>g. g = 10 \<and>
      view_get (ex_store(0 := [[0.01], [1]])) (0, 0) 0 = Inr (0 + g * 1 * grad_neg)"
    by simp
  show ?thesis
    by (intro conjI v a r1 n1 r2 n2 r3)
qed

text \<open>
  C6, as amended. A draw whose vertex is the head vertex is skipped (no coefficient, no
  update, the arrays as they were) when the squared distance from the head position to
  the drawn position is not positive; this is always so when \<^verbatim>\<open>head_embedding\<close> and
  \<^verbatim>\<open>tail_embedding\<close> are one array. When the distance is positive the draw is treated as
  any other negative sample: the update is the same for every head vertex \<open>j'\<close>, equal
  to the drawn vertex or not. The test of line 216 comes before the test of line 221.
\<close>

theorem self_sample_skipped:
  "(\<forall>other. mk_view s temb k = Inr other \<longrightarrow> j = k \<longrightarrow>
       \<not> rdist (view_row s current) (view_row s other) > 0 \<longrightarrow>
       neg_update temb a b gm alpha dm current j k s = Returns s) \<and>
   (mk_view s hemb j = Inr current \<longrightarrow>
       neg_update hemb a b gm alpha dm current j j s = Returns s) \<and>
   (\<forall>other. mk_view s temb k = Inr other \<longrightarrow>
       rdist (view_row s current) (view_row s other) > 0 \<longrightarrow>
       neg_update temb a b gm alpha dm current j k s =
         neg_update temb a b gm alpha dm current j' k s)"
  by (auto simp: neg_update_def Let_def rdist_same)

theorem self_sample_skipped_witness:
  "mk_view ex_twin 1 0 = Inr (1, 0) \<and>
   \<not> rdist (view_row ex_twin (0, 0)) (view_row ex_twin (1, 0)) > 0 \<and>
   neg_update 1 1 1 1 1 1 (0, 0) 0 0 ex_twin = Returns ex_twin \<and>
   mk_view ex_store 0 1 = Inr (0, 1) \<and>
   neg_update 0 1 1 1 1 1 (0, 1) 1 1 ex_store = Returns ex_store \<and>
   mk_view ex_split 1 0 = Inr (1, 0) \<and>
   rdist (view_row ex_split (0, 0)) (view_row ex_split (1, 0)) > 0 \<and>
   neg_update 1 1 1 1 1 1 (0, 0) 0 0 ex_split = neg_update 1 1 1 1 1 1 (0, 0) 5 0 ex_split \<and>
   neg_update 1 1 1 1 1 1 (0, 0) 5 0 ex_split = Returns (ex_split(0 := [[- 1 / 1001]]))"
proof -
  have 1: "mk_view ex_twin 1 0 = Inr (1, 0)"
    by (simp add: mk_view_def ex_twin_def py_index_def)
  have 2: "\<not> rdist (view_row ex_twin (0, 0)) (view_row ex_twin (1, 0)) > 0"
    by (simp add: rdist_def view_row_def ex_twin_def)
  have 3: "mk_view ex_store 0 1 = Inr (0, 1)"
    by (simp add: mk_view_def ex_store_def py_index_def)
  have 4: "mk_view ex_split 1 0 = Inr (1, 0)"
    by (simp add: mk_view_def ex_split_def py_index_def)
  have 5: "rdist (view_row ex_split (0, 0)) (view_row ex_split (1, 0)) > 0"
    by (simp add: rdist_def view_row_def ex_split_def)
  have 6: "neg_update 1 1 1 1 1 1 (0, 0) 5 0 ex_split = Returns (ex_split(0 := [[- 1 / 1001]]))"
    by (simp add: neg_update_def mk_view_def ex_split_def py_index_def view_row_def rdist_def
        Let_def pow_def neg_loop_def neg_dim_def neg_grad_d_def view_get_def nth_err_def clip_def
        view_add_def grad_neg_def)
  have a: "neg_update 1 1 1 1 1 1 (0, 0) 0 0 ex_twin = Returns ex_twin"
    using 1 2
      self_sample_skipped [where s = ex_twin and temb = 1 and k = 0 and j = 0
        and current = "(0, 0)" and a = 1 and b = 1 and gm = 1 and alpha = 1 and dm = 1]
    by simp
  have b: "neg_update 0 1 1 1 1 1 (0, 1) 1 1 ex_store = Returns ex_store"
    using 3
      self_sample_skipped [where s = ex_store and hemb = 0 and j = 1
        and current = "(0, 1)" and a = 1 and b = 1 and gm = 1 and alpha = 1 and dm = 1]
    by simp
  have c: "neg_update 1 1 1 1 1 1 (0, 0) 0 0 ex_split = neg_update 1 1 1 1 1 1 (0, 0) 5 0 ex_split"
    using 4 5
      self_sample_skipped [where s = ex_split and temb = 1 and k = 0 and j = 0 and j' = 5
        and current = "(0, 0)" and a = 1 and b = 1 and gm = 1 and alpha = 1 and dm = 1]
    by simp
  show ?thesis
    by (intro conjI 1 2 a 3 b 4 5 c 6)
qed

text \<open>
  C6, as stated, fails: with two arrays, head position 0 and tail position 1 in row 0 of
  each, the draw of vertex 0 for head vertex 0 moves the head.
\<close>

theorem self_sample_moves_head:
  "neg_update 1 1 1 1 1 1 (0, 0) 0 0 ex_split = Returns (ex_split(0 := [[- 1 / 1001]])) \<and>
   (ex_split(0 := [[- 1 / 1001]])) 0 \<noteq> ex_split 0"
  apply (simp add: neg_update_def mk_view_def ex_split_def py_index_def view_row_def rdist_def Let_def pow_def
      neg_loop_def neg_dim_def neg_grad_d_def view_get_def nth_err_def clip_def view_add_def grad_neg_def)
  done


section \<open>Properties of the Local Layout Optimizer\<close>

lemma ex_kernel_args: "kernel_args ex_args 1 ex_store = ex_kargs"
  by (simp add: kernel_args_def ex_args_def ex_kargs_def ex_store_def shape1_def np_divide_def)

lemma ex_initial_state: "initial_state ex_kargs ex_store 0 = ex_state ex_store 1"
  by (simp add: initial_state_def ex_kargs_def ex_args_def ex_state_def)

lemma ex_epoch_0: "single_epoch ex_tau ex_kargs alpha 0 (ex_state ex_store 1) = Some (Returns (ex_state ex_store 1))"
  by (simp add: single_epoch_def ex_kargs_def ex_args_def edge_step_def ex_state_def nth_err_def)

lemma ex_attract:
  "edge_attract ex_kargs alpha 0 ex_store = Returns (ex_store(0 := [[alpha * 0.01], [1 - alpha * 0.01]]))"
  apply (simp add: edge_attract_def ex_kargs_def ex_args_def nth_err_def mk_view_def py_index_def ex_store_def
      view_row_def rdist_def attract_coeff_def pow_def attract_loop_def attract_dim_def view_get_def
      np_get_def attr_grad_d_def clip_def grad_current_def grad_other_def view_add_def Let_def)
  done


lemma ex_state_sel:
  "arrays (ex_state s x) = s" "rng_state (ex_state s x) = 0"
  "epoch_of_next_sample (ex_state s x) = [x]"
  "epoch_of_next_negative_sample (ex_state s x) = [Fin 1]"
  "(ex_state s x)\<lparr>arrays := s'\<rparr> = ex_state s' x"
  "(ex_state s x)\<lparr>epoch_of_next_sample := [y]\<rparr> = ex_state s y"
  by (simp_all add: ex_state_def)

lemma ex_repulse:
  "edge_repulse ex_tau ex_kargs alpha (Suc 0) 0 (ex_state s 2) = Some (Returns (ex_state s 2))"
  if "length (s 0) = 2"
  using that
  by (simp add: edge_repulse_def ex_state_def ex_kargs_def ex_args_def nth_err_def n_neg_samples_def
      fl_sub_def round_double_simps mk_view_def py_index_def)

lemma ex_epoch_1:
  "single_epoch ex_tau ex_kargs alpha (Suc 0) (ex_state ex_store 1) =
     Some (Returns (ex_state (ex_store(0 := [[alpha * 0.01], [1 - alpha * 0.01]])) 2))"
proof -
  have eps: "epochs_per_sample ex_kargs = [1]"
    by (simp add: ex_kargs_def ex_args_def)
  have "edge_step ex_tau ex_kargs alpha (Suc 0) 0 (ex_state ex_store 1) =
      edge_repulse ex_tau ex_kargs alpha (Suc 0) 0
        (ex_state (ex_store(0 := [[alpha * 0.01], [1 - alpha * 0.01]])) 2)"
    by (simp add: edge_step_def ex_state_sel ex_attract on_arrays_def eps nth_err_def)
  also have "\<dots> = Some (Returns (ex_state (ex_store(0 := [[alpha * 0.01], [1 - alpha * 0.01]])) 2))"
    by (rule ex_repulse) simp
  finally show ?thesis
    by (simp add: single_epoch_def eps)
qed

lemma ex_two_epochs:
  "epochs_loop ex_tau ex_kargs 1 2 verbose [0..<2] 1 False (ex_state ex_store 1) =
     Some (verbose, Returns (ex_state (ex_store(0 := [[0.01], [0.99]])) 2))"
proof -
  have "[0..<2] = [0, Suc 0]"
    by (simp add: upt_rec)
  then show ?thesis
    by (simp add: ex_epoch_0 ex_epoch_1)
qed

text \<open>
  C3. The spec has epoch \<open>n\<close> use the learning rate
  \<^verbatim>\<open>initial_alpha * (1 - n/N)\<close>. Line 132 computes that value after the kernel call of
  epoch \<open>n\<close>, so it is the rate of epoch \<open>n + 1\<close>: in a run of two epochs with
  \<^verbatim>\<open>initial_alpha = 1\<close> the edge fires in epoch 1 with rate 1, not 0.5, and the two points
  move by 0.01, not by 0.005.
\<close>

theorem second_epoch_uses_initial_alpha:
  "nn_layout_optimize ex_tau ex_args 2 1 1 True ex_store 0 =
     Some (Returns (ex_state (ex_store(0 := [[0.01], [0.99]])) 2))"
  using ex_two_epochs [of True]
  by (simp add: nn_layout_optimize_def ex_kernel_args ex_initial_state)


lemma epochs_loop_not_verbose:
  "epochs_loop tau K ia N False ns alpha bd st = Some (bd', r) \<Longrightarrow> bd' = bd"
proof (induction ns arbitrary: alpha st)
  case Nil
  then show ?case by simp
next
  case (Cons n ns)
  then show ?case
    by (auto split: option.splits res.splits)
qed

lemma nn_zero_epochs:
  "n_epochs \<le> 0 \<Longrightarrow>
   nn_layout_optimize tau A n_epochs ia rate verbose s r =
     Some (Raised NameError (initial_state (kernel_args A rate s) s r))"
  by (simp add: nn_layout_optimize_def)

text \<open>
  C2, as amended. When the name \<^verbatim>\<open>plot_tmptmp\<close> was never bound (\<^verbatim>\<open>verbose\<close> is false, or
  there is no epoch), the optimizer never returns \<^verbatim>\<open>head_embedding\<close>. Whenever its epochs
  run to completion, and always when there is no epoch, the call of line 143 raises
  \<^verbatim>\<open>NameError\<close>, with the arrays as the epochs left them. A run whose kernel raises ends
  with the error of the kernel, and a run whose kernel never returns never reaches
  line 143.
\<close>

theorem name_error_at_exit:
  assumes "\<not> verbose \<or> n_epochs \<le> 0"
  shows "(\<forall>st. nn_layout_optimize tau A n_epochs ia rate verbose s r \<noteq> Some (Returns st)) \<and>
         (\<forall>bd st. epochs_loop tau (kernel_args A rate s) ia n_epochs verbose [0..<nat n_epochs] ia
                     False (initial_state (kernel_args A rate s) s r) = Some (bd, Returns st) \<longrightarrow>
              nn_layout_optimize tau A n_epochs ia rate verbose s r = Some (Raised NameError st)) \<and>
         (n_epochs \<le> 0 \<longrightarrow>
              nn_layout_optimize tau A n_epochs ia rate verbose s r =
                Some (Raised NameError (initial_state (kernel_args A rate s) s r))) \<and>
         nn_layout_optimize tau A n_epochs ia rate verbose s r =
           (case epochs_loop tau (kernel_args A rate s) ia n_epochs verbose [0..<nat n_epochs] ia
                   False (initial_state (kernel_args A rate s) s r) of
              None \<Rightarrow> None
            | Some (bd, Raised e st) \<Rightarrow> Some (Raised e st)
            | Some (bd, Returns st) \<Rightarrow> Some (Raised NameError st))"
proof (cases "n_epochs \<le> 0")
  case True
  then show ?thesis
    by (simp add: nn_layout_optimize_def)
next
  case False
  with assms have nv: "\<not> verbose"
    by simp
  have "bd = False"
    if "epochs_loop tau (kernel_args A rate s) ia n_epochs verbose [0..<nat n_epochs] ia
          False (initial_state (kernel_args A rate s) s r) = Some (bd, x)" for bd x
    using that nv epochs_loop_not_verbose by fastforce
  then show ?thesis
    using False
    by (auto simp: nn_layout_optimize_def split: option.splits res.splits)
qed

theorem name_error_at_exit_witness:
  "epochs_loop ex_tau (kernel_args ex_args 1 ex_store) 1 2 False [0..<nat 2] 1 False
     (initial_state (kernel_args ex_args 1 ex_store) ex_store 0) =
       Some (False, Returns (ex_state (ex_store(0 := [[0.01], [0.99]])) 2)) \<and>
   nn_layout_optimize ex_tau ex_args 2 1 1 False ex_store 0 =
     Some (Raised NameError (ex_state (ex_store(0 := [[0.01], [0.99]])) 2)) \<and>
   nn_layout_optimize ex_tau ex_args 0 1 1 False ex_store 0 =
     Some (Raised NameError (initial_state (kernel_args ex_args 1 ex_store) ex_store 0))"
proof -
  have run: "epochs_loop ex_tau (kernel_args ex_args 1 ex_store) 1 2 False [0..<nat 2] 1 False
     (initial_state (kernel_args ex_args 1 ex_store) ex_store 0) =
       Some (False, Returns (ex_state (ex_store(0 := [[0.01], [0.99]])) 2))"
    using ex_two_epochs [of False] by (simp add: ex_kernel_args ex_initial_state)
  have h2: "\<not> False \<or> (2::int) \<le> 0" and h0: "\<not> False \<or> (0::int) \<le> 0"
    by simp_all
  show ?thesis
    using run name_error_at_exit [OF h2, of ex_tau ex_args 1 1 ex_store 0]
      name_error_at_exit [OF h0, of ex_tau ex_args 1 1 ex_store 0]
    by blast
qed


section \<open>Hub labels that admit no negative sample\<close>

lemma np_get_in_range:
  "0 \<le> i \<Longrightarrow> i < int (length xs) \<Longrightarrow> np_get xs i = Inr (xs ! nat i)"
  by (simp add: np_get_def py_index_def)

lemma draw_hub_no_result:
  assumes "draw_hub tau hub nv r = Some y"
  shows "(\<forall>h\<in>set hub. h \<le> 0) \<longrightarrow> 0 < nv \<longrightarrow> nv \<le> int (length hub) \<longrightarrow> False"
proof (rule draw_hub.raw_induct [where P = "\<lambda>tau hub nv r y.
    (\<forall>h\<in>set hub. h \<le> 0) \<longrightarrow> 0 < nv \<longrightarrow> nv \<le> int (length hub) \<longrightarrow> False", OF _ assms],
    goal_cases)
  case (1 f tau hub nv r y)
  show ?case
  proof (intro impI)
    assume all: "\<forall>h\<in>set hub. h \<le> 0" and pos: "0 < nv" and len: "nv \<le> int (length hub)"
    have "fst (tau r) mod nv < nv" and m0: "0 \<le> fst (tau r) mod nv"
      using pos by simp_all
    with len have m: "0 \<le> fst (tau r) mod nv" "fst (tau r) mod nv < int (length hub)"
      by linarith+
    then have "np_get hub (fst (tau r) mod nv) = Inr (hub ! nat (fst (tau r) mod nv))"
      by (rule np_get_in_range)
    moreover have "hub ! nat (fst (tau r) mod nv) \<le> 0"
      using all m by simp
    ultimately have "f tau hub nv (snd (tau r)) = Some y"
      using 1(2) pos by (simp split: if_splits)
    then show False
      using 1(1) all pos len by blast
  qed
qed

lemma draw_hub_diverges:
  assumes "\<forall>h\<in>set hub. h \<le> 0" and "0 < nv" and "nv \<le> int (length hub)"
  shows "draw_hub tau hub nv r = None"
proof (cases "draw_hub tau hub nv r")
  case None
  then show ?thesis .
next
  case (Some y)
  show ?thesis
    using draw_hub_no_result [OF Some] assms by simp
qed


text \<open>
  C5, as amended. Nothing checks \<^verbatim>\<open>hub_info\<close>: when no vertex has a label above 0 (and
  the drawn indices are in range), a negative sample raises no error; its rejection
  loop, lines 208 to 211, never ends.
\<close>

theorem no_hub_never_detected:
  assumes "\<forall>h\<in>set (hub_info K). h \<le> 0"
    and "0 < n_vertices K" and "n_vertices K \<le> int (length (hub_info K))"
  shows "neg_sample tau K alpha current j st = None"
  by (simp add: neg_sample_def draw_hub_diverges [OF assms])

lemma ex_nohub_hyps:
  "\<forall>h\<in>set (hub_info ex_nohub_kargs). h \<le> 0" "0 < n_vertices ex_nohub_kargs"
  "n_vertices ex_nohub_kargs \<le> int (length (hub_info ex_nohub_kargs))"
  by (simp_all add: ex_nohub_kargs_def ex_nohub_args_def ex_args_def)

theorem no_hub_never_detected_witness:
  "hub_info ex_nohub_kargs = [0, 0] \<and> 0 < n_vertices ex_nohub_kargs \<and>
   n_vertices ex_nohub_kargs \<le> int (length (hub_info ex_nohub_kargs)) \<and>
   neg_sample ex_tau ex_nohub_kargs 1 (0, 0) 0 (ex_nohub_state 2) = None"
proof -
  have "hub_info ex_nohub_kargs = [0, 0]"
    by (simp add: ex_nohub_kargs_def ex_nohub_args_def)
  then show ?thesis
    using ex_nohub_hyps
      no_hub_never_detected [OF ex_nohub_hyps, of ex_tau 1 "(0, 0)" 0 "ex_nohub_state 2"]
    by blast
qed

lemma ex_nohub_kernel_args: "kernel_args ex_nohub_args 2 ex_store = ex_nohub_kargs"
  by (simp add: kernel_args_def ex_nohub_args_def ex_args_def ex_nohub_kargs_def ex_store_def
      shape1_def np_divide_def)

lemma ex_nohub_initial: "initial_state ex_nohub_kargs ex_store 0 = ex_nohub_state 1"
  by (simp add: initial_state_def ex_nohub_kargs_def ex_nohub_args_def ex_args_def
      ex_nohub_state_def)

lemma ex_nohub_epoch_0:
  "single_epoch ex_tau ex_nohub_kargs alpha 0 (ex_nohub_state 1) = Some (Returns (ex_nohub_state 1))"
  by (simp add: single_epoch_def ex_nohub_kargs_def ex_nohub_args_def ex_args_def edge_step_def
      ex_nohub_state_def nth_err_def)

lemma ex_nohub_attract:
  "edge_attract ex_nohub_kargs alpha 0 ex_store = Returns ex_store"
  by (simp add: edge_attract_def ex_nohub_kargs_def ex_nohub_args_def ex_args_def nth_err_def
      mk_view_def py_index_def ex_store_def view_row_def rdist_def attract_coeff_def pow_def
      attract_loop_def attract_dim_def view_get_def np_get_def attr_grad_d_def clip_def
      grad_current_def grad_other_def view_add_def Let_def)

lemma ex_nohub_repulse:
  "edge_repulse ex_tau ex_nohub_kargs alpha (Suc 0) 0 (ex_nohub_state 2) = None"
proof -
  have sample: "neg_sample ex_tau ex_nohub_kargs alpha (0, 0) 0 (ex_nohub_state 2) = None"
    by (simp add: neg_sample_def draw_hub_diverges [OF ex_nohub_hyps])
  have n: "n_neg_samples (Suc 0) (Fin (1 / 2)) (Fin (1 / 2)) = Inr 1"
    by (simp add: n_neg_samples_def fl_sub_def round_double_simps)
  have sel: "epoch_of_next_negative_sample (ex_nohub_state 2) = [Fin (1 / 2)]"
    "epochs_per_negative_sample ex_nohub_kargs = [Fin (1 / 2)]" "head ex_nohub_kargs = [0]"
    "arrays (ex_nohub_state 2) = ex_store" "head_embedding ex_nohub_kargs = 0"
    by (simp_all add: ex_nohub_state_def ex_nohub_kargs_def ex_nohub_args_def ex_args_def)
  have v: "mk_view ex_store 0 0 = Inr (0, 0)"
    by (simp add: mk_view_def ex_store_def py_index_def)
  show ?thesis
    by (simp add: edge_repulse_def sel nth_err_def n v sample)
qed

lemma ex_nohub_epoch_1:
  "single_epoch ex_tau ex_nohub_kargs alpha (Suc 0) (ex_nohub_state 1) = None"
proof -
  have sel: "epochs_per_sample ex_nohub_kargs = [1]" "epoch_of_next_sample (ex_nohub_state 1) = [1]"
    "arrays (ex_nohub_state 1) = ex_store"
    "(ex_nohub_state 1)\<lparr>arrays := ex_store\<rparr> = ex_nohub_state 1"
    "(ex_nohub_state 1)\<lparr>epoch_of_next_sample := [2]\<rparr> = ex_nohub_state 2"
    by (simp_all add: ex_nohub_state_def ex_nohub_kargs_def ex_nohub_args_def ex_args_def)
  have "edge_step ex_tau ex_nohub_kargs alpha (Suc 0) 0 (ex_nohub_state 1) = None"
    by (simp add: edge_step_def sel nth_err_def ex_nohub_attract on_arrays_def ex_nohub_repulse)
  then show ?thesis
    by (simp add: single_epoch_def sel)
qed

text \<open>
  C5, as stated, fails: on the two points without a hub the optimizer raises no error;
  the edge fires in epoch 1, one negative sample is due, and the run never ends.
\<close>

theorem no_hub_runs_forever:
  "nn_layout_optimize ex_tau ex_nohub_args 2 1 2 False ex_store 0 = None"
proof -
  have "[0..<2] = [0, Suc 0]"
    by (simp add: upt_rec)
  then show ?thesis
    by (simp add: nn_layout_optimize_def ex_nohub_kernel_args ex_nohub_initial ex_nohub_epoch_0
        ex_nohub_epoch_1)
qed

text \<open>
  C2, as stated, fails: the call with \<^verbatim>\<open>verbose\<close> false and three epochs on the two points
  without a hub never binds the name and raises no \<^verbatim>\<open>NameError\<close>, since it never reaches
  line 143: the second epoch does not end.
\<close>

theorem unbound_name_no_name_error:
  "nn_layout_optimize ex_tau ex_nohub_args 3 1 2 False ex_store 0 = None"
proof -
  have "[0..<3] = [0, Suc 0, 2]"
    by (simp add: upt_rec)
  then show ?thesis
    by (simp add: nn_layout_optimize_def ex_nohub_kernel_args ex_nohub_initial ex_nohub_epoch_0
        ex_nohub_epoch_1)
qed


section \<open>The counters of an edge\<close>





























section \<open>A run without negative samples\<close>

lemma for_each_invariant:
  assumes "\<And>x s s'. P s \<Longrightarrow> body x s = Returns s' \<Longrightarrow> P s'"
  shows "P s \<Longrightarrow> for_each body xs s = Returns s' \<Longrightarrow> P s'"
proof (induction xs arbitrary: s)
  case Nil
  then show ?case by simp
next
  case (Cons x xs)
  then show ?case
    using assms by (cases "body x s") auto
qed

lemma attract_dim_lengths:
  "attract_dim hub k mv alpha g current other d s = Returns s' \<Longrightarrow>
   length (s' a) = length (s a)"
  by (auto simp: attract_dim_def Let_def length_view_add split: sum.splits if_splits)

lemma edge_attract_lookups:
  assumes "edge_attract K alpha i s = Returns s'"
  shows "\<exists>j current. nth_err (head K) i = Inr j \<and> mk_view s' (head_embedding K) j = Inr current"
proof -
  from assms obtain j k current other g where l: "nth_err (head K) i = Inr j"
    "mk_view s (head_embedding K) j = Inr current"
    "attract_loop (hub_info K) k (move_other K) alpha g current other (dim' K) s = Returns s'"
    by (auto simp: edge_attract_def split: sum.splits)
  have "length (s' (head_embedding K)) = length (s (head_embedding K))"
    using l(3) unfolding attract_loop_def
    by (rule for_each_invariant [where P = "\<lambda>x. length (x (head_embedding K)) = length (s (head_embedding K))", rotated 2])
      (simp_all add: attract_dim_lengths)
  then have "mk_view s' (head_embedding K) j = Inr current"
    using l(2) by (simp add: mk_view_def)
  with l(1) show ?thesis by blast
qed

lemma n_neg_samples_not_finite:
  "\<not> is_fin next_neg \<Longrightarrow> \<not> is_fin per_neg \<Longrightarrow>
   n_neg_samples n next_neg per_neg = Inr (- (2 ^ 63))"
  by (cases next_neg; cases per_neg) (simp_all add: n_neg_samples_def fl_sub_def)

lemma fl_add_not_finite: "\<not> is_fin x \<Longrightarrow> \<not> is_fin (fl_add x y)"
  by (cases x; cases y) simp_all

lemma np_divide_zero: "\<not> is_fin (np_divide e 0)"
  by (simp add: np_divide_def)

text \<open>
  C10. With \<^verbatim>\<open>negative_sample_rate = 0\<close> line 103 divides by zero: every
  \<^verbatim>\<open>epochs_per_negative_sample\<close> and every initial \<^verbatim>\<open>epoch_of_next_negative_sample\<close> is an
  infinity or NaN, and a negative counter that is not finite stays so at line 234. For
  such values the quotient of line 204 is NaN and its cast is not positive, so the loop
  of line 208 does not run. The step of an edge that fires, in any epoch \<open>n\<close>, is then
  its attractive step, the advance of \<^verbatim>\<open>epoch_of_next_sample\<close> by exactly its
  \<^verbatim>\<open>epochs_per_sample\<close> and the update of line 234: no vertex is drawn (the random state
  is as it was) and no repulsive displacement is applied. An edge that does not fire
  changes nothing.
\<close>

theorem rate_zero_only_attracts:
  assumes "nth_err (epoch_of_next_sample st) i = Inr next"
    and "nth_err (epochs_per_sample K) i = Inr per"
    and "nth_err (epoch_of_next_negative_sample st) i = Inr next_neg"
    and "nth_err (epochs_per_negative_sample K) i = Inr per_neg"
  shows "(K = kernel_args A 0 s \<longrightarrow> \<not> is_fin per_neg) \<and>
     (K = kernel_args A 0 s \<longrightarrow> st = initial_state K s r \<longrightarrow> \<not> is_fin next_neg) \<and>
     (\<not> is_fin next_neg \<longrightarrow> \<not> is_fin per_neg \<longrightarrow>
        edge_step tau K alpha n i st =
          (if next \<le> real n then
             (case edge_attract K alpha i (arrays st) of
                Raised e s' \<Rightarrow> Some (Raised e (st\<lparr>arrays := s'\<rparr>))
              | Returns s' \<Rightarrow>
                  Some (Returns
                    (st\<lparr>arrays := s',
                        epoch_of_next_sample := (epoch_of_next_sample st)[i := next + per],
                        epoch_of_next_negative_sample := (epoch_of_next_negative_sample st)
                          [i := fl_add next_neg (fl_mul (Fin (- (2 ^ 63))) per_neg)]\<rparr>)))
           else Some (Returns st)) \<and>
        \<not> is_fin (fl_add next_neg (fl_mul (Fin (- (2 ^ 63))) per_neg)))"
proof (intro conjI impI)
  assume K: "K = kernel_args A 0 s"
  then have "epochs_per_negative_sample K = map (\<lambda>e. np_divide e 0) (epochs_per_sample A)"
    by (simp add: kernel_args_def)
  with assms(4) show per: "\<not> is_fin per_neg"
    by (auto simp: nth_err_def np_divide_zero split: if_splits)
  assume "st = initial_state K s r"
  then have "epoch_of_next_negative_sample st = epochs_per_negative_sample K"
    by (simp add: initial_state_def)
  with assms(3,4) per show "\<not> is_fin next_neg"
    by simp
next
  assume nf: "\<not> is_fin next_neg" "\<not> is_fin per_neg"
  show "\<not> is_fin (fl_add next_neg (fl_mul (Fin (- (2 ^ 63))) per_neg))"
    using nf(1) by (rule fl_add_not_finite)
  show "edge_step tau K alpha n i st =
     (if next \<le> real n then
        (case edge_attract K alpha i (arrays st) of
           Raised e s' \<Rightarrow> Some (Raised e (st\<lparr>arrays := s'\<rparr>))
         | Returns s' \<Rightarrow>
             Some (Returns
               (st\<lparr>arrays := s',
                   epoch_of_next_sample := (epoch_of_next_sample st)[i := next + per],
                   epoch_of_next_negative_sample := (epoch_of_next_negative_sample st)
                     [i := fl_add next_neg (fl_mul (Fin (- (2 ^ 63))) per_neg)]\<rparr>)))
      else Some (Returns st))"
  proof (cases "next \<le> real n")
    case False
    with assms(1) show ?thesis
      by (simp add: edge_step_def)
  next
    case True
    show ?thesis
    proof (cases "edge_attract K alpha i (arrays st)")
      case (Raised e s')
      with True assms(1) show ?thesis
        by (simp add: edge_step_def on_arrays_def)
    next
      case (Returns s')
      then obtain j current where l: "nth_err (head K) i = Inr j"
        "mk_view s' (head_embedding K) j = Inr current"
        using edge_attract_lookups by blast
      let ?st1 = "st\<lparr>arrays := s', epoch_of_next_sample := (epoch_of_next_sample st)[i := next + per]\<rparr>"
      have "edge_repulse tau K alpha n i ?st1 =
          Some (Returns (?st1\<lparr>epoch_of_next_negative_sample := (epoch_of_next_negative_sample st)
                     [i := fl_add next_neg (fl_mul (Fin (- (2 ^ 63))) per_neg)]\<rparr>))"
        using assms(3,4) l n_neg_samples_not_finite [OF nf, of n]
        by (simp add: edge_repulse_def)
      with True Returns assms(1,2) show ?thesis
        by (simp add: edge_step_def on_arrays_def)
    qed
  qed
qed

lemma ex_ring_kernel_args:
  "kernel_args (ex_ring_args [e0, e1, e2]) 0 ex_square =
     (ex_ring_args [e0, e1, e2])\<lparr>dim' := 2, move_other := True,
        epochs_per_negative_sample := [np_divide e0 0, np_divide e1 0, np_divide e2 0]\<rparr>"
  by (simp add: kernel_args_def ex_ring_args_def ex_square_def shape1_def)

lemma ex_ring_attract:
  "edge_attract (kernel_args (ex_ring_args [e0, e1, e2]) 0 ex_square) 1 0 ex_square =
     Returns (ex_square(0 := [[0.01, 0], [0.99, 0], [1, 1], [0, 1]]))"
  by (simp add: ex_ring_kernel_args)
    (simp add: edge_attract_def ex_ring_args_def nth_err_def mk_view_def py_index_def ex_square_def
      view_row_def rdist_def attract_coeff_def pow_def attract_loop_def attract_dim_def view_get_def
      np_get_def attr_grad_d_def clip_def grad_current_def grad_other_def view_add_def Let_def
      upt_rec)

lemma ex_ring_sel:
  "epochs_per_sample (kernel_args (ex_ring_args eps) 0 ex_square) = eps"
  "epochs_per_negative_sample (kernel_args (ex_ring_args eps) 0 ex_square) =
     map (\<lambda>e. np_divide e 0) eps"
  "epoch_of_next_sample (ex_ring_state s next next_neg) = next"
  "epoch_of_next_negative_sample (ex_ring_state s next next_neg) = next_neg"
  "arrays (ex_ring_state s next next_neg) = s"
  "(ex_ring_state s next next_neg)\<lparr>arrays := s', epoch_of_next_sample := next',
      epoch_of_next_negative_sample := next_neg'\<rparr> = ex_ring_state s' next' next_neg'"
  "initial_state (kernel_args (ex_ring_args eps) 0 ex_square) ex_square 0 =
     ex_ring_state ex_square eps (map (\<lambda>e. np_divide e 0) eps)"
  by (simp_all add: ex_ring_args_def ex_ring_state_def kernel_args_def initial_state_def)

text \<open>
  Two runs on the square with \<^verbatim>\<open>negative_sample_rate = 0\<close>. With \<^verbatim>\<open>n_epochs = 1\<close> and
  \<^verbatim>\<open>epochs_per_sample = [1, 1, 1]\<close> no edge fires in the one epoch, epoch 0, and the run
  returns the arrays and the counters as they were. With \<^verbatim>\<open>n_epochs = 2\<close> and
  \<^verbatim>\<open>epochs_per_sample = [1, 5, 5]\<close> the first edge fires in epoch 1: its two points are
  attracted, its counter goes from 1 to 2, and the random state is still 0.
\<close>

theorem rate_zero_only_attracts_witness:
  "nn_layout_optimize ex_tau (ex_ring_args [1, 1, 1]) 1 1 0 True ex_square 0 =
     Some (Returns (ex_ring_state ex_square [1, 1, 1] [PInf, PInf, PInf])) \<and>
   nn_layout_optimize ex_tau (ex_ring_args [1, 5, 5]) 2 1 0 True ex_square 0 =
     Some (Returns (ex_ring_state (ex_square(0 := [[0.01, 0], [0.99, 0], [1, 1], [0, 1]]))
        [2, 5, 5] [NaN, PInf, PInf]))"
proof -
  have step: "edge_step ex_tau (kernel_args (ex_ring_args [e0, e1, e2]) 0 ex_square) alpha n i
       (ex_ring_state s [a0, a1, a2] [x0, x1, x2]) =
     (if [a0, a1, a2] ! i \<le> real n then
        (case edge_attract (kernel_args (ex_ring_args [e0, e1, e2]) 0 ex_square) alpha i s of
           Raised e s' \<Rightarrow> Some (Raised e (ex_ring_state s' [a0, a1, a2] [x0, x1, x2]))
         | Returns s' \<Rightarrow>
             Some (Returns
               (ex_ring_state s' ([a0, a1, a2][i := [a0, a1, a2] ! i + [e0, e1, e2] ! i])
                  ([x0, x1, x2][i := fl_add ([x0, x1, x2] ! i)
                     (fl_mul (Fin (- (2 ^ 63))) (np_divide ([e0, e1, e2] ! i) 0))]))))
      else Some (Returns (ex_ring_state s [a0, a1, a2] [x0, x1, x2])))"
    if "i < 3" "\<not> is_fin ([x0, x1, x2] ! i)" for e0 e1 e2 alpha n i s a0 a1 a2 x0 x1 x2
  proof -
    let ?K = "kernel_args (ex_ring_args [e0, e1, e2]) 0 ex_square"
    let ?st = "ex_ring_state s [a0, a1, a2] [x0, x1, x2]"
    have l: "nth_err (epoch_of_next_sample ?st) i = Inr ([a0, a1, a2] ! i)"
      "nth_err (epochs_per_sample ?K) i = Inr ([e0, e1, e2] ! i)"
      "nth_err (epoch_of_next_negative_sample ?st) i = Inr ([x0, x1, x2] ! i)"
      "nth_err (epochs_per_negative_sample ?K) i = Inr (np_divide ([e0, e1, e2] ! i) 0)"
      using that(1) by (auto simp: ex_ring_sel nth_err_def less_Suc_eq numeral_3_eq_3)
    have "edge_step ex_tau ?K alpha n i ?st =
          (if [a0, a1, a2] ! i \<le> real n then
             (case edge_attract ?K alpha i (arrays ?st) of
                Raised e s' \<Rightarrow> Some (Raised e (?st\<lparr>arrays := s'\<rparr>))
              | Returns s' \<Rightarrow>
                  Some (Returns
                    (?st\<lparr>arrays := s',
                        epoch_of_next_sample := (epoch_of_next_sample ?st)
                          [i := [a0, a1, a2] ! i + [e0, e1, e2] ! i],
                        epoch_of_next_negative_sample := (epoch_of_next_negative_sample ?st)
                          [i := fl_add ([x0, x1, x2] ! i)
                             (fl_mul (Fin (- (2 ^ 63))) (np_divide ([e0, e1, e2] ! i) 0))]\<rparr>)))
           else Some (Returns ?st))"
      using rate_zero_only_attracts [OF l, where tau = ex_tau and alpha = alpha and n = n]
        that(2) np_divide_zero
      by blast
    then show ?thesis
      by (simp add: ex_ring_state_def split: res.splits)
  qed
  have inf: "np_divide 1 0 = PInf" "np_divide 5 0 = PInf"
    by (simp_all add: np_divide_def)
  have upt: "[0..<3] = [0, Suc 0, 2]" "[0..<2] = [0, Suc 0]"
    by (simp_all add: upt_rec)
  have e1: "single_epoch ex_tau (kernel_args (ex_ring_args [1, 1, 1]) 0 ex_square) 1 0
       (ex_ring_state ex_square [1, 1, 1] [PInf, PInf, PInf]) =
     Some (Returns (ex_ring_state ex_square [1, 1, 1] [PInf, PInf, PInf]))"
    by (simp add: single_epoch_def ex_ring_sel upt step)
  have r1: "nn_layout_optimize ex_tau (ex_ring_args [1, 1, 1]) 1 1 0 True ex_square 0 =
     Some (Returns (ex_ring_state ex_square [1, 1, 1] [PInf, PInf, PInf]))"
    by (simp add: nn_layout_optimize_def ex_ring_sel inf e1)
  have e20: "single_epoch ex_tau (kernel_args (ex_ring_args [1, 5, 5]) 0 ex_square) 1 0
       (ex_ring_state ex_square [1, 5, 5] [PInf, PInf, PInf]) =
     Some (Returns (ex_ring_state ex_square [1, 5, 5] [PInf, PInf, PInf]))"
    by (simp add: single_epoch_def ex_ring_sel upt step)
  have e21: "single_epoch ex_tau (kernel_args (ex_ring_args [1, 5, 5]) 0 ex_square) 1 (Suc 0)
       (ex_ring_state ex_square [1, 5, 5] [PInf, PInf, PInf]) =
     Some (Returns (ex_ring_state (ex_square(0 := [[0.01, 0], [0.99, 0], [1, 1], [0, 1]]))
        [2, 5, 5] [NaN, PInf, PInf]))"
    by (simp add: single_epoch_def ex_ring_sel upt step ex_ring_attract inf)
  have r2: "nn_layout_optimize ex_tau (ex_ring_args [1, 5, 5]) 2 1 0 True ex_square 0 =
     Some (Returns (ex_ring_state (ex_square(0 := [[0.01, 0], [0.99, 0], [1, 1], [0, 1]]))
        [2, 5, 5] [NaN, PInf, PInf]))"
    by (simp add: nn_layout_optimize_def ex_ring_sel inf upt e20 e21)
  show ?thesis
    using r1 r2 by (rule conjI)
qed


section \<open>Properties of the Global Layout Refiner\<close>

lemma those_nth:
  "those xs = Some ys \<Longrightarrow> length ys = length xs \<and> (\<forall>i<length xs. xs ! i = Some (ys ! i))"
proof (induction xs arbitrary: ys)
  case Nil
  then show ?case by simp
next
  case (Cons x xs)
  then obtain y ys' where y: "x = Some y" "those xs = Some ys'" "ys = y # ys'"
    by (auto split: option.splits)
  with Cons.IH [of ys'] show ?case
    by (auto simp: nth_Cons split: nat.splits)
qed

lemma mat_opt_nth:
  assumes "mat_opt f M = Some R"
  shows "length R = length M"
    and "i < length M \<Longrightarrow> length (R ! i) = length (M ! i)"
    and "i < length M \<Longrightarrow> j < length (M ! i) \<Longrightarrow> f (M ! i ! j) = Some (R ! i ! j)"
proof -
  from assms have t: "those (map (\<lambda>row. those (map f row)) M) = Some R"
    by (simp add: mat_opt_def)
  from those_nth [OF t] show len: "length R = length M"
    by simp
  have row: "those (map f (M ! i)) = Some (R ! i)" if "i < length M" for i
    using those_nth [OF t] that by simp
  show "length (R ! i) = length (M ! i)" if "i < length M"
    using those_nth [OF row [OF that]] by simp
  show "f (M ! i ! j) = Some (R ! i ! j)" if "i < length M" "j < length (M ! i)"
    using those_nth [OF row [OF that(1)]] that(2) by simp
qed

lemma np_power_reciprocal:
  assumes "np_power x (- 1) = Some v"
  shows "v = 1 / x"
proof -
  have f: "\<lfloor>- 1 :: real\<rfloor> = - 1"
    using floor_of_int [of "- 1", where ?'a = real] by simp
  show ?thesis
    using assms
    by (auto simp: np_power_def f powr_minus_divide power_int_minus_divide split: if_splits)
qed

lemma rdist_nonneg: "0 \<le> rdist x y"
  unfolding rdist_def by (induction x y rule: list_induct2') simp_all

lemma rdist_zero:
  "length x = length y \<Longrightarrow> rdist x y = 0 \<Longrightarrow> c < length x \<Longrightarrow> x ! c = y ! c"
proof (induction x y arbitrary: c rule: list_induct2)
  case Nil
  then show ?case by simp
next
  case (Cons u us v vs)
  have r: "rdist (u # us) (v # vs) = (u - v) * (u - v) + rdist us vs"
    by (simp add: rdist_def)
  have "0 \<le> (u - v) * (u - v)"
    by simp
  with r Cons.prems(1) rdist_nonneg [of us vs] have z: "(u - v) * (u - v) = 0" "rdist us vs = 0"
    by linarith+
  then show ?case
    using Cons.IH [of "c - 1"] Cons.prems(2) by (cases c) simp_all
qed


lemma sum_list_nth: "sum_list (map f xs) = (\<Sum>k\<leftarrow>[0..<length xs]. f (xs ! k))"
proof -
  have "map f xs = map f (map (\<lambda>k. xs ! k) [0..<length xs])"
    by (simp only: map_nth)
  also have "\<dots> = map (\<lambda>k. f (xs ! k)) [0..<length xs]"
    by (simp only: map_map o_def)
  finally show ?thesis
    by (rule arg_cong)
qed

lemma sum_list_upt_cong:
  "(\<And>k. k < n \<Longrightarrow> f k = g k) \<Longrightarrow> (\<Sum>k\<leftarrow>[0..<n]. f k) = (\<Sum>k\<leftarrow>[0..<n]. g k :: real)"
proof -
  assume "\<And>k. k < n \<Longrightarrow> f k = g k"
  then have "map f [0..<n] = map g [0..<n]"
    by simp
  then show ?thesis
    by (rule arg_cong)
qed

lemma d_squared_nth:
  assumes "i < length Z" and "j < length Z"
  shows "map (map (\<lambda>x. x * x)) (adjacency_matrix Z) ! i ! j = spec_D2 Z i j"
  using assms rdist_nonneg [of "Z ! i" "Z ! j"]
  by (simp add: adjacency_matrix_def spec_D2_def)

lemma d_squared_len:
  "length (map (map (\<lambda>x. x * x)) (adjacency_matrix Z)) = length Z"
  "i < length Z \<Longrightarrow> length (map (map (\<lambda>x. x * x)) (adjacency_matrix Z) ! i) = length Z"
  by (simp_all add: adjacency_matrix_def)

lemma fill_diagonal_nth:
  assumes "i < length M" and "j < length (M ! i)"
  shows "fill_diagonal M v ! i ! j = (if i = j then v else M ! i ! j)"
  using assms by (auto simp: fill_diagonal_def nth_enumerate_eq)

lemma fill_diagonal_len:
  "length (fill_diagonal M v) = length M"
  "i < length M \<Longrightarrow> length (fill_diagonal M v ! i) = length (M ! i)"
  by (simp_all add: fill_diagonal_def nth_enumerate_eq)

lemma shape1_nth: "0 < length M \<Longrightarrow> shape1 M = length (M ! 0)"
  by (cases M) (simp_all add: shape1_def)

lemma np_dot_nth:
  assumes "i < length A" and "j < shape1 B"
  shows "np_dot A B ! i ! j = (\<Sum>k\<leftarrow>[0..<length B]. A ! i ! k * B ! k ! j)"
  using assms by (simp add: np_dot_def)

lemma np_dot_len:
  "length (np_dot A B) = length A"
  "i < length A \<Longrightarrow> length (np_dot A B ! i) = shape1 B"
  by (simp_all add: np_dot_def)

lemma sum_axis1_nth:
  "c < d \<Longrightarrow> sum_axis1 d vs ! c = (\<Sum>v\<leftarrow>vs. v ! c)"
  by (simp add: sum_axis1_def)


lemma kernel_times_diff:
  assumes len: "length zi = length zj" and c: "c < length zi"
    and v: "(case np_power (rdist zi zj) b of None \<Rightarrow> None
             | Some w \<Rightarrow> np_power (1 + a * w) (- 1)) = Some v"
  shows "(zi ! c - zj ! c) * v = (zi ! c - zj ! c) * (1 / (1 + a * rdist zi zj powr b))"
proof (cases "rdist zi zj = 0")
  case True
  then have "zi ! c = zj ! c"
    using rdist_zero [OF len _ c] by simp
  then show ?thesis
    by simp
next
  case False
  with rdist_nonneg [of zi zj] have pos: "0 < rdist zi zj"
    by simp
  then have "np_power (rdist zi zj) b = Some (rdist zi zj powr b)"
    by (simp add: np_power_def)
  with v have "np_power (1 + a * rdist zi zj powr b) (- 1) = Some v"
    by simp
  then have "v = 1 / (1 + a * rdist zi zj powr b)"
    by (rule np_power_reciprocal)
  then show ?thesis
    by simp
qed

text \<open>
  C8. An iteration of the Global Layout Refiner updates \<open>Z\<close> exactly as the formula
  says: whenever the iteration of lines 46 to 61 yields a matrix, it is the one of
  \<open>spec_global_step\<close>.
\<close>

theorem global_step_follows_formula:
  assumes "global_step P Z a b alpha = Some Z'"
  shows "Z' = spec_global_step P Z a b alpha"
proof -
  let ?N = "length Z" and ?d = "shape1 Z"
  let ?D = "map (map (\<lambda>x. x * x)) (adjacency_matrix Z)"
  from assms have wfZ: "is_matrix ?N ?d Z" and wfP: "is_matrix ?N ?N P"
    by (auto simp: global_step_def split: if_splits)
  from assms wfZ wfP obtain d_inverse Q0 Q W where
    dinv: "mat_opt (\<lambda>x. case np_power x b of None \<Rightarrow> None
                          | Some w \<Rightarrow> np_power (1 + a * w) (- 1)) ?D = Some d_inverse"
    and Q0: "mat_opt (\<lambda>x. np_power (0.001 + x) (- 1)) ?D = Some Q0"
    and Q: "mat_opt id (map (\<lambda>row. map (\<lambda>q. np_true_divide q (sum_list row)) row)
                  (np_dot (map (map (\<lambda>p. 1 - p)) P) (fill_diagonal Q0 0))) = Some Q"
    and W: "mat_opt (\<lambda>x. np_power (1 / 10 ^ 12 + x) (b - 1)) ?D = Some W"
    and Z': "Z' = map2 (map2 (\<lambda>z dz. z - alpha * dz)) Z
        (map (\<lambda>(gi, zi, di).
                sum_axis1 ?d (map (\<lambda>(g, z, d). map (\<lambda>c. g * c * d) z) (zip gi (zip zi di))))
           (zip (map2 (map2 (-)) (map2 (map2 (\<lambda>p w. 2 * a * b * p * w)) P W)
                   (map (map (\<lambda>q. 2 * b * q)) Q))
              (zip (map (\<lambda>zi. map (\<lambda>zj. map2 (-) zi zj) Z) Z) d_inverse)))"
    by (auto simp: global_step_def Let_def split: option.splits)
  have rowZ: "length (Z ! i) = ?d" if "i < ?N" for i
    using wfZ that by (simp add: is_matrix_def)
  have rowP: "length (P ! i) = ?N" if "i < ?N" for i
    using wfP that by (simp add: is_matrix_def)
  have lenP: "length P = ?N"
    using wfP by (simp add: is_matrix_def)
  note Dn = d_squared_nth [where Z = Z] and Dl = d_squared_len [where Z = Z]
  have dinv_len: "length d_inverse = ?N" "\<And>i. i < ?N \<Longrightarrow> length (d_inverse ! i) = ?N"
    using mat_opt_nth(1,2) [OF dinv] Dl by simp_all
  have Q0_len: "length Q0 = ?N" "\<And>i. i < ?N \<Longrightarrow> length (Q0 ! i) = ?N"
    using mat_opt_nth(1,2) [OF Q0] Dl by simp_all
  have W_len: "length W = ?N" "\<And>i. i < ?N \<Longrightarrow> length (W ! i) = ?N"
    using mat_opt_nth(1,2) [OF W] Dl by simp_all
  have Q0_nth: "Q0 ! i ! j = 1 / (0.001 + spec_D2 Z i j)" if "i < ?N" "j < ?N" for i j
  proof -
    have "np_power (0.001 + ?D ! i ! j) (- 1) = Some (Q0 ! i ! j)"
      using mat_opt_nth(3) [OF Q0, of i j] that Dl by simp
    then show ?thesis
      using np_power_reciprocal Dn [OF that] by simp
  qed
  have W_nth: "W ! i ! j = (1 / 10 ^ 12 + spec_D2 Z i j) powr (b - 1)" if "i < ?N" "j < ?N" for i j
  proof -
    have "np_power (1 / 10 ^ 12 + ?D ! i ! j) (b - 1) = Some (W ! i ! j)"
      using mat_opt_nth(3) [OF W, of i j] that Dl by simp
    moreover have "0 < 1 / 10 ^ 12 + spec_D2 Z i j"
      using rdist_nonneg [of "Z ! i" "Z ! j"] by (simp add: spec_D2_def add_pos_nonneg)
    ultimately show ?thesis
      using Dn [OF that] by (simp add: np_power_def)
  qed
  have dinv_nth: "(Z ! i ! c - Z ! j ! c) * d_inverse ! i ! j =
      (Z ! i ! c - Z ! j ! c) * spec_kernel Z a b i j" if "i < ?N" "j < ?N" "c < ?d" for i j c
  proof -
    have "(case np_power (?D ! i ! j) b of None \<Rightarrow> None
           | Some w \<Rightarrow> np_power (1 + a * w) (- 1)) = Some (d_inverse ! i ! j)"
      using mat_opt_nth(3) [OF dinv, of i j] that Dl by simp
    then have "(case np_power (rdist (Z ! i) (Z ! j)) b of None \<Rightarrow> None
           | Some w \<Rightarrow> np_power (1 + a * w) (- 1)) = Some (d_inverse ! i ! j)"
      using Dn [OF that(1,2)] by (simp add: spec_D2_def)
    then show ?thesis
      using kernel_times_diff [where zi = "Z ! i" and zj = "Z ! j" and c = c and a = a and b = b]
        rowZ that
      by (simp add: spec_kernel_def spec_D2_def)
  qed
  let ?Q2 = "np_dot (map (map (\<lambda>p. 1 - p)) P) (fill_diagonal Q0 0)"
  have sh: "shape1 (fill_diagonal Q0 0) = ?N" if "i < ?N" for i
  proof -
    from that have pos: "0 < length (fill_diagonal Q0 0)" "0 < length Q0" "0 < ?N"
      using Q0_len(1) by (auto simp: fill_diagonal_len(1))
    have "shape1 (fill_diagonal Q0 0) = length (fill_diagonal Q0 0 ! 0)"
      using pos(1) by (rule shape1_nth)
    also have "\<dots> = length (Q0 ! 0)"
      using pos(2) by (rule fill_diagonal_len(2))
    also have "\<dots> = ?N"
      using pos(3) by (rule Q0_len(2))
    finally show ?thesis .
  qed
  have Q2_len: "length ?Q2 = ?N" "\<And>i. i < ?N \<Longrightarrow> length (?Q2 ! i) = ?N"
    using sh lenP by (simp_all add: np_dot_len)
  have Q2_nth: "?Q2 ! i ! j = spec_Q1 P Z i j" if "i < ?N" "j < ?N" for i j
  proof -
    have "?Q2 ! i ! j = (\<Sum>k\<leftarrow>[0..<?N]. map (map (\<lambda>p. 1 - p)) P ! i ! k * fill_diagonal Q0 0 ! k ! j)"
      using np_dot_nth [where i = i and A = "map (map (\<lambda>p. 1 - p)) P" and j = j
          and B = "fill_diagonal Q0 0"] that lenP sh
        Q0_len fill_diagonal_len(1) [where M = Q0 and v = 0] by simp
    also have "\<dots> = (\<Sum>k\<leftarrow>[0..<?N]. (1 - P ! i ! k) * spec_Q0 Z k j)"
    proof (rule sum_list_upt_cong)
      fix k
      assume k: "k < ?N"
      have "fill_diagonal Q0 0 ! k ! j = spec_Q0 Z k j"
        using fill_diagonal_nth [where i = k and M = Q0 and j = j and v = 0] Q0_len
          Q0_nth [OF k that(2)] k that(2)
        by (simp add: spec_Q0_def)
      then show "map (map (\<lambda>p. 1 - p)) P ! i ! k * fill_diagonal Q0 0 ! k ! j =
          (1 - P ! i ! k) * spec_Q0 Z k j"
        using that(1) k lenP rowP by simp
    qed
    finally show ?thesis
      by (simp add: spec_Q1_def)
  qed
  have Q_len: "length Q = ?N" "\<And>i. i < ?N \<Longrightarrow> length (Q ! i) = ?N"
    using mat_opt_nth(1,2) [OF Q] Q2_len by simp_all
  have Q_nth: "Q ! i ! j = spec_Q P Z i j" if "i < ?N" "j < ?N" for i j
  proof -
    have "np_true_divide (?Q2 ! i ! j) (sum_list (?Q2 ! i)) = Some (Q ! i ! j)"
      using mat_opt_nth(3) [OF Q, of i j] that Q2_len by simp
    then have "Q ! i ! j = ?Q2 ! i ! j / sum_list (?Q2 ! i)"
      by (simp add: np_true_divide_def split: if_splits)
    moreover have "sum_list (?Q2 ! i) = (\<Sum>j'\<leftarrow>[0..<?N]. spec_Q1 P Z i j')"
    proof -
      have "sum_list (?Q2 ! i) = (\<Sum>j'\<leftarrow>[0..<?N]. ?Q2 ! i ! j')"
        using sum_list_nth [of "\<lambda>x. x" "?Q2 ! i"] Q2_len(2) [OF that(1)] by simp
      also have "\<dots> = (\<Sum>j'\<leftarrow>[0..<?N]. spec_Q1 P Z i j')"
        by (rule sum_list_upt_cong) (rule Q2_nth [OF that(1)])
      finally show ?thesis .
    qed
    ultimately show ?thesis
      using Q2_nth [OF that] by (simp add: spec_Q_def)
  qed
  let ?grad = "map2 (map2 (-)) (map2 (map2 (\<lambda>p w. 2 * a * b * p * w)) P W)
                   (map (map (\<lambda>q. 2 * b * q)) Q)"
  have grad_len: "length ?grad = ?N" "\<And>i. i < ?N \<Longrightarrow> length (?grad ! i) = ?N"
    using lenP W_len Q_len rowP by simp_all
  have grad_nth: "?grad ! i ! j = spec_grad P Z a b i j" if "i < ?N" "j < ?N" for i j
    using that lenP W_len Q_len rowP W_nth [OF that] Q_nth [OF that] by (simp add: spec_grad_def)
  let ?zdiff = "map (\<lambda>zi. map (\<lambda>zj. map2 (-) zi zj) Z) Z"
  let ?dZ = "map (\<lambda>(gi, zi, di).
                sum_axis1 ?d (map (\<lambda>(g, z, d). map (\<lambda>c. g * c * d) z) (zip gi (zip zi di))))
           (zip ?grad (zip ?zdiff d_inverse))"
  have dZ_len: "length ?dZ = ?N" "\<And>i. i < ?N \<Longrightarrow> length (?dZ ! i) = ?d"
    using grad_len dinv_len by (simp_all add: sum_axis1_def)
  have dZ_nth: "?dZ ! i ! c = (\<Sum>j\<leftarrow>[0..<?N].
      spec_grad P Z a b i j * (Z ! i ! c - Z ! j ! c) * spec_kernel Z a b i j)"
    if i: "i < ?N" and c: "c < ?d" for i c
  proof -
    let ?xs = "zip (?grad ! i) (zip (?zdiff ! i) (d_inverse ! i))"
    have lx: "length ?xs = ?N"
      using i grad_len dinv_len by simp
    have "?dZ ! i ! c = (\<Sum>v\<leftarrow>map (\<lambda>(g, z, d). map (\<lambda>c. g * c * d) z) ?xs. v ! c)"
      using i c grad_len dinv_len by (simp add: sum_axis1_nth)
    also have "\<dots> = (\<Sum>x\<leftarrow>?xs. (case x of (g, z, d) \<Rightarrow> map (\<lambda>c. g * c * d) z) ! c)"
      by (simp add: o_def)
    also have "\<dots> = (\<Sum>j\<leftarrow>[0..<?N]. (case ?xs ! j of (g, z, d) \<Rightarrow> map (\<lambda>c. g * c * d) z) ! c)"
      using sum_list_nth [of "\<lambda>x. (case x of (g, z, d) \<Rightarrow> map (\<lambda>c. g * c * d) z) ! c" ?xs] lx
      by simp
    also have "\<dots> = (\<Sum>j\<leftarrow>[0..<?N].
        spec_grad P Z a b i j * (Z ! i ! c - Z ! j ! c) * spec_kernel Z a b i j)"
    proof (rule sum_list_upt_cong)
      fix j
      assume j: "j < ?N"
      have "(case ?xs ! j of (g, z, d) \<Rightarrow> map (\<lambda>c. g * c * d) z) ! c =
          ?grad ! i ! j * (Z ! i ! c - Z ! j ! c) * d_inverse ! i ! j"
        using i j c grad_len dinv_len rowZ by simp
      also have "\<dots> = spec_grad P Z a b i j * ((Z ! i ! c - Z ! j ! c) * d_inverse ! i ! j)"
        using grad_nth [OF i j] by simp
      also have "\<dots> = spec_grad P Z a b i j * ((Z ! i ! c - Z ! j ! c) * spec_kernel Z a b i j)"
        using dinv_nth [OF i j c] by simp
      finally show "(case ?xs ! j of (g, z, d) \<Rightarrow> map (\<lambda>c. g * c * d) z) ! c =
          spec_grad P Z a b i j * (Z ! i ! c - Z ! j ! c) * spec_kernel Z a b i j"
        by simp
    qed
    finally show ?thesis .
  qed
  define dZ where "dZ = ?dZ"
  have l1: "length dZ = ?N"
    unfolding dZ_def by (rule dZ_len(1))
  have l2: "length (dZ ! i) = ?d" if "i < ?N" for i
    unfolding dZ_def using that by (rule dZ_len(2))
  have l3: "dZ ! i ! c = (\<Sum>j\<leftarrow>[0..<?N].
      spec_grad P Z a b i j * (Z ! i ! c - Z ! j ! c) * spec_kernel Z a b i j)"
    if "i < ?N" "c < ?d" for i c
    unfolding dZ_def using that by (rule dZ_nth)
  have Z'': "Z' = map2 (map2 (\<lambda>z dz. z - alpha * dz)) Z dZ"
    unfolding dZ_def by (rule Z')
  show ?thesis
  proof (rule nth_equalityI)
    show "length Z' = length (spec_global_step P Z a b alpha)"
      using Z'' l1 by (simp add: spec_global_step_def)
  next
    fix i
    assume "i < length Z'"
    then have i: "i < ?N"
      using Z'' l1 by simp
    show "Z' ! i = spec_global_step P Z a b alpha ! i"
    proof (rule nth_equalityI)
      show "length (Z' ! i) = length (spec_global_step P Z a b alpha ! i)"
        using Z'' i l1 l2 [OF i] rowZ [OF i] by (simp add: spec_global_step_def)
    next
      fix c
      assume "c < length (Z' ! i)"
      then have c: "c < ?d"
        using Z'' i l1 l2 [OF i] rowZ [OF i] by simp
      have "Z' ! i ! c = Z ! i ! c - alpha * dZ ! i ! c"
        using Z'' i c l1 l2 [OF i] rowZ [OF i] by simp
      then show "Z' ! i ! c = spec_global_step P Z a b alpha ! i ! c"
        using l3 [OF i c] i c by (simp add: spec_global_step_def)
    qed
  qed
qed


lemma ex_global_step: "global_step [[0, 1], [1, 0]] [[0], [1]] 2 1 0.3 = Some [[0.2], [0.8]]"
  by (simp add: global_step_def is_matrix_def shape1_def adjacency_matrix_def rdist_def mat_opt_def
      np_power_def fill_diagonal_def enumerate_eq_zip np_dot_def np_true_divide_def upt_rec
      sum_axis1_def Let_def)

theorem global_step_follows_formula_witness:
  "global_step [[0, 1], [1, 0]] [[0], [1]] 2 1 0.3 = Some [[0.2], [0.8]] \<and>
   spec_global_step [[0, 1], [1, 0]] [[0], [1]] 2 1 0.3 = [[0.2], [0.8]]"
  using ex_global_step global_step_follows_formula [OF ex_global_step] by simp

section \<open>Runs of zero epochs and of zero iterations\<close>

text \<open>
  C1. With \<^verbatim>\<open>max_iter = 0\<close> the Global Layout Refiner returns \<open>Z\<close> as it was. With
  \<^verbatim>\<open>n_epochs = 0\<close> the Local Layout Optimizer changes no array either, but it does not
  return: the call of line 143 raises \<^verbatim>\<open>NameError\<close>, for every input.
\<close>

theorem zero_epochs_raise_zero_iterations_return:
  "nn_layout_optimize tau A 0 ia rate verbose s r =
     Some (Raised NameError (initial_state (kernel_args A rate s) s r)) \<and>
   arrays (initial_state (kernel_args A rate s) s r) = s \<and>
   optimize_global_layout P Z a b alpha 0 = Some Z"
  by (simp add: nn_zero_epochs optimize_global_layout_def initial_state_def)

end
